theory Spec2Isabelle
  imports Main "HOL-Library.List_Lexorder" "HOL-Library.Char_ord"
begin

section \<open>The intermediary (proxy): backup buffer, liveness checkpoint, replay\<close>

text \<open>
  The proxy with a backup buffer keeps two module-level variables:
  \<^verbatim>\<open>let backup = []\<close> and \<^verbatim>\<open>let lastPong = Date.now()\<close>.
  A buffer entry is \<^verbatim>\<open>{ message: <raw frame>, timestamp: Date.now() }\<close>.
  Timestamps are the millisecond counts of \<^verbatim>\<open>Date.now()\<close>: non-negative integers,
  far below the range where a JavaScript number stops being exact, hence \<open>nat\<close>.
  Every reading of the clock is an input of the model.
\<close>

record backup_entry =
  message :: string
  timestamp :: nat

record proxy =
  backup :: "backup_entry list"
  lastPong :: nat

text \<open>
  \<^verbatim>\<open>onPong: () => { lastPong = Date.now();
     backup = backup.filter((message) => message.timestamp > lastPong) }\<close>
  (the logging around it reads the two variables and changes nothing).
\<close>

definition onPong :: "nat \<Rightarrow> proxy \<Rightarrow> proxy" where
  "onPong now p =
     (let p1 = p\<lparr>lastPong := now\<rparr>
      in p1\<lparr>backup := filter (\<lambda>e. timestamp e > lastPong p1) (backup p1)\<rparr>)"

text \<open>
  What \<^verbatim>\<open>resendMessages(target)\<close> does to the upstream socket, in order:
  \<^verbatim>\<open>target.send(m.message)\<close> and \<^verbatim>\<open>await wait(250)\<close>.
\<close>

datatype target_action = Send string | Wait nat

text \<open>
  The loop of the proxy's \<^verbatim>\<open>resendMessages\<close>:
  \<^verbatim>\<open>for (const m of messagesToResend) { target.send(m.message); await wait(250) }\<close>
\<close>

fun resend_loop :: "backup_entry list \<Rightarrow> target_action list" where
  "resend_loop [] = []"
| "resend_loop (m # ms) = Send (message m) # Wait 250 # resend_loop ms"

text \<open>
  \<^verbatim>\<open>async function resendMessages(target) {
    const now = Date.now();
    const messagesToResend = backup.filter(
      (m) => m.timestamp > lastPong && m.timestamp <= now);
    if (messagesToResend.length === 0) { return; }
    for (const m of messagesToResend) { ... } }\<close>
  The list to resend is fixed before the first wait, so the hooks that run during the
  waits cannot change what is sent.
\<close>

definition resendMessages :: "nat \<Rightarrow> proxy \<Rightarrow> target_action list" where
  "resendMessages now p =
     (let messagesToResend =
            filter (\<lambda>m. timestamp m > lastPong p \<and> timestamp m \<le> now) (backup p)
      in if length messagesToResend = 0 then [] else resend_loop messagesToResend)"

text \<open>
  The earlier draft of the proxy walks the buffer itself and skips with the opposite test:
  \<^verbatim>\<open>async function resendMessages(target) {
    const now = Date.now()
    for (const m of backup) {
      if (m.timestamp < lastPong || m.timestamp > now) { continue }
      target.send(m.message)
      await wait(250) } }\<close>
  The loop reads \<^verbatim>\<open>lastPong\<close> anew at every entry and walks the array that
  \<^verbatim>\<open>backup\<close> named when the loop began, and the hooks of the proxy run during the
  waits:
  \<^verbatim>\<open>onPong\<close> (above; its \<^verbatim>\<open>filter\<close> binds \<^verbatim>\<open>backup\<close> to a new array, so the
  loop goes on over the old one),
  \<^verbatim>\<open>onIncomingMessage\<close> (\<^verbatim>\<open>backup.push({ message, timestamp: Date.now() })\<close>, in
  place) and \<^verbatim>\<open>onDisconnect\<close> (\<^verbatim>\<open>backup.length = 0\<close>, in place).
  The state of the walk is the proxy, the array walked, and whether \<^verbatim>\<open>backup\<close> still
  names that array. A further \<^verbatim>\<open>onReconnect\<close> during the waits (a second loop on the
  same target) is not modelled.
\<close>

datatype hook = Pong nat | IncomingMessage string nat | Disconnect

fun draft_hook ::
  "hook \<Rightarrow> proxy \<times> backup_entry list \<times> bool \<Rightarrow> proxy \<times> backup_entry list \<times> bool" where
  "draft_hook (Pong t) (p, walked, same) = (onPong t p, walked, False)"
| "draft_hook (IncomingMessage m t) (p, walked, same) =
     (p\<lparr>backup := backup p @ [\<lparr>message = m, timestamp = t\<rparr>]\<rparr>,
      if same then walked @ [\<lparr>message = m, timestamp = t\<rparr>] else walked,
      same)"
| "draft_hook Disconnect (p, walked, same) =
     (p\<lparr>backup := []\<rparr>, if same then [] else walked, same)"

fun draft_hooks ::
  "hook list \<Rightarrow> proxy \<times> backup_entry list \<times> bool \<Rightarrow> proxy \<times> backup_entry list \<times> bool" where
  "draft_hooks [] st = st"
| "draft_hooks (h # hs) st = draft_hooks hs (draft_hook h st)"

text \<open>
  The loop from index \<open>i\<close> of the array walked. \<open>waits\<close> holds, for each wait to come,
  the hooks that run during it; when it is used up, nothing more happens during the waits.
\<close>

function resendMessages_draft_loop ::
  "nat \<Rightarrow> nat \<Rightarrow> hook list list \<Rightarrow> proxy \<times> backup_entry list \<times> bool \<Rightarrow> target_action list" where
  "resendMessages_draft_loop now i waits (p, walked, same) =
     (if i < length walked
      then if timestamp (walked ! i) < lastPong p \<or> timestamp (walked ! i) > now
           then resendMessages_draft_loop now (i + 1) waits (p, walked, same)
           else Send (message (walked ! i)) # Wait 250 #
                  resendMessages_draft_loop now (i + 1) (tl waits)
                    (draft_hooks (case waits of [] \<Rightarrow> [] | hs # later \<Rightarrow> hs) (p, walked, same))
      else [])"
  by pat_completeness auto
termination
proof (relation "measures [\<lambda>(now, i, waits, p, walked, same). length waits,
                           \<lambda>(now, i, waits, p, walked, same). length walked - i]")
  show "wf (measures [\<lambda>(now, i, waits, p, walked, same). length waits,
                      \<lambda>(now, i, waits, p, walked, same). length walked - i])"
    by simp
next
  fix now i :: nat and waits :: "hook list list" and p :: proxy
    and walked :: "backup_entry list" and same :: bool
  assume "i < length walked"
  then show "((now, i + 1, waits, p, walked, same), now, i, waits, p, walked, same)
        \<in> measures [\<lambda>(now, i, waits, p, walked, same). length waits,
                     \<lambda>(now, i, waits, p, walked, same). length walked - i]"
    by auto
next
  fix now i :: nat and waits :: "hook list list" and p :: proxy
    and walked :: "backup_entry list" and same :: bool
  assume "i < length walked"
  then show "((now, i + 1, tl waits,
               draft_hooks (case waits of [] \<Rightarrow> [] | hs # later \<Rightarrow> hs) (p, walked, same)),
              now, i, waits, p, walked, same)
        \<in> measures [\<lambda>(now, i, waits, p, walked, same). length waits,
                     \<lambda>(now, i, waits, p, walked, same). length walked - i]"
    by (cases waits) auto
qed

definition resendMessages_draft :: "nat \<Rightarrow> hook list list \<Rightarrow> proxy \<Rightarrow> target_action list" where
  "resendMessages_draft now waits p = resendMessages_draft_loop now 0 waits (p, backup p, True)"

text \<open>The frames an action list sends, in order, and the waits between them.\<close>

fun sent_frames :: "target_action list \<Rightarrow> string list" where
  "sent_frames [] = []"
| "sent_frames (Send f # as) = f # sent_frames as"
| "sent_frames (Wait d # as) = sent_frames as"

fun paced :: "nat \<Rightarrow> target_action list \<Rightarrow> bool" where
  "paced d [] = True"
| "paced d (Send f # Wait d' # as) = (d' = d \<and> paced d as)"
| "paced d as = False"


section \<open>Messages and the message log\<close>

text \<open>
  A message is built by the \<^verbatim>\<open>sendMessage\<close> resolver of each server as
  \<^verbatim>\<open>{ id: randomUUID(), text, user, at: new Date().toISOString() }\<close>;
  the log is the array \<^verbatim>\<open>storage.messages\<close>. What is published on the topic and what a
  subscription yields is the wrapper \<^verbatim>\<open>{ onMessage: message }\<close>.
\<close>

record msg =
  msg_id :: string
  msg_text :: string
  msg_user :: string
  msg_at :: string

record payload =
  onMessage :: msg

text \<open>
  The GraphQL argument \<^verbatim>\<open>id: String\<close> is absent (\<open>None\<close>) or a string; the
  resolvers test it with \<^verbatim>\<open>!id\<close>, which also holds for the empty string.
\<close>

fun truthy :: "string option \<Rightarrow> bool" where
  "truthy None = False"
| "truthy (Some s) = (s \<noteq> [])"

text \<open>\<^verbatim>\<open>Array.prototype.findIndex\<close>: the first index whose element passes, or \<open>-1\<close>.\<close>

fun findIndex_from :: "int \<Rightarrow> ('a \<Rightarrow> bool) \<Rightarrow> 'a list \<Rightarrow> int" where
  "findIndex_from i P [] = - 1"
| "findIndex_from i P (x # xs) = (if P x then i else findIndex_from (i + 1) P xs)"

definition findIndex :: "('a \<Rightarrow> bool) \<Rightarrow> 'a list \<Rightarrow> int" where
  "findIndex P xs = findIndex_from 0 P xs"

text \<open>
  \<^verbatim>\<open>Array.prototype.slice(start)\<close>: a negative start counts from the end, and the
  start is clamped to the array.
\<close>

definition slice :: "'a list \<Rightarrow> int \<Rightarrow> 'a list" where
  "slice xs start =
     (let len = int (length xs);
          k = (if start < 0 then max (len + start) 0 else min start len)
      in drop (nat k) xs)"

definition new_message :: "string \<Rightarrow> string \<Rightarrow> string \<Rightarrow> string \<Rightarrow> msg" where
  "new_message uuid now text user =
     \<lparr>msg_id = uuid, msg_text = text, msg_user = user, msg_at = now\<rparr>"


section \<open>The resumable server: subscribe with a cursor\<close>

text \<open>
  \<^verbatim>\<open>subscribe: async (_, { id }, { pubsub }) => {
    if (!id) { return pubsub.subscribe('MESSAGE_SENT'); }
    const startIndex = storage.messages.findIndex((msg) => msg.id === id);
    if (startIndex !== -1) {
      const messagesToSend = storage.messages.slice(startIndex);
      return (async function* () { ... })();
    }
  }\<close>
  With a cursor that is not found the function reaches its end and returns
  \<^verbatim>\<open>undefined\<close>: \<open>None\<close> below. \<open>LiveOnly\<close> is the iterator of the engine's own
  \<^verbatim>\<open>pubsub.subscribe\<close>; \<open>BackfillThenLive\<close> is the generator, which has captured
  \<^verbatim>\<open>messagesToSend\<close>.
\<close>

datatype subscription_source = LiveOnly | BackfillThenLive "msg list"

definition resume_subscribe :: "msg list \<Rightarrow> string option \<Rightarrow> subscription_source option" where
  "resume_subscribe storage id' =
     (if \<not> truthy id' then Some LiveOnly
      else let startIndex = findIndex (\<lambda>m. Some (msg_id m) = id') storage
           in if startIndex \<noteq> - 1
              then let messagesToSend = slice storage startIndex
                   in Some (BackfillThenLive messagesToSend)
              else None)"

text \<open>
  The second loop of the generator, over the payloads the live subscription delivers:
  \<^verbatim>\<open>let resumeFromNext = false;
  for await (const message of subscription) {
    if (messagesToSend.length === 0 || resumeFromNext) { yield message; }
    else if (message.onMessage.id === messagesToSend[messagesToSend.length - 1].id) {
      resumeFromNext = true; } }\<close>
  The live subscription never ends by itself; the function gives what the generator has
  yielded once the live subscription has delivered a finite run of payloads.
\<close>

fun live_loop :: "msg list \<Rightarrow> bool \<Rightarrow> payload list \<Rightarrow> payload list" where
  "live_loop messagesToSend resumeFromNext [] = []"
| "live_loop messagesToSend resumeFromNext (m # rest) =
     (if length messagesToSend = 0 \<or> resumeFromNext
      then m # live_loop messagesToSend resumeFromNext rest
      else if msg_id (onMessage m) = msg_id (last messagesToSend)
           then live_loop messagesToSend True rest
           else live_loop messagesToSend resumeFromNext rest)"

text \<open>
  What a subscription yields to its consumer when the live subscription delivers
  \<open>live\<close>: the first loop of the generator yields
  \<^verbatim>\<open>{ onMessage: message }\<close> for each of \<^verbatim>\<open>messagesToSend\<close>, then the second loop
  runs.
\<close>

fun yielded :: "subscription_source \<Rightarrow> payload list \<Rightarrow> payload list" where
  "yielded LiveOnly live = live"
| "yielded (BackfillThenLive messagesToSend) live =
     map (\<lambda>message. \<lparr>onMessage = message\<rparr>) messagesToSend
       @ live_loop messagesToSend False live"

text \<open>
  A whole resumed subscription. The resolver takes the slice when it is called; the
  generator then yields the backfill and only after that calls
  \<^verbatim>\<open>await pubsub.subscribe('MESSAGE_SENT')\<close>, so its live subscription delivers
  exactly the messages published from then on, \<open>published_later\<close>, each as
  \<^verbatim>\<open>{ onMessage: message }\<close> (what \<^verbatim>\<open>sendMessage\<close> publishes). \<open>None\<close> when the
  resolver returned no stream.
\<close>

definition resumed_stream :: "msg list \<Rightarrow> string option \<Rightarrow> msg list \<Rightarrow> payload list option" where
  "resumed_stream storage id' published_later =
     (case resume_subscribe storage id' of
        None \<Rightarrow> None
      | Some source \<Rightarrow>
          Some (yielded source (map (\<lambda>message. \<lparr>onMessage = message\<rparr>) published_later)))"

text \<open>
  The words of the specification, for comparison: the messages of the log strictly after
  the cursor, and the part of a live feed that comes after the stitch message.
\<close>

definition strictly_after :: "string \<Rightarrow> msg list \<Rightarrow> msg list" where
  "strictly_after c log = tl (dropWhile (\<lambda>m. msg_id m \<noteq> c) log)"

definition from_cursor :: "string \<Rightarrow> msg list \<Rightarrow> msg list" where
  "from_cursor c log = dropWhile (\<lambda>m. msg_id m \<noteq> c) log"

definition after_stitch :: "string \<Rightarrow> payload list \<Rightarrow> payload list" where
  "after_stitch i live = tl (dropWhile (\<lambda>p. msg_id (onMessage p) \<noteq> i) live)"


section \<open>The unstable server: custom pubsub, publish, subscribe with a cursor\<close>

text \<open>
  The fault that \<^verbatim>\<open>scheduleSubscriptionProblem\<close> draws for a subscription (or none) is
  an input of the model: it is drawn with \<^verbatim>\<open>Math.random()\<close>. The flag
  \<^verbatim>\<open>problem.run\<close> is set by the timer of an \<^verbatim>\<open>unresponsive\<close> fault.
\<close>

datatype problem_kind = unresponsive | close_connection | break_connection

record problem =
  kind :: problem_kind
  timeout :: nat
  run :: bool

text \<open>
  One subscription of \<^verbatim>\<open>class Pubsub\<close>: the object
  \<^verbatim>\<open>{ topic, args: { id }, queue, context, listener, close }\<close>. The queue is the
  stream the engine hands in and reads the subscription's results from; \<open>sub_queue\<close> is
  what has been pushed to it. The listener is a closure over \<^verbatim>\<open>problem\<close> and
  \<^verbatim>\<open>queue\<close>; \<open>sub_listening\<close> tells whether it is still registered on the emitter
  (\<^verbatim>\<open>close\<close> removes it).
\<close>

record subscription =
  sub_id :: string
  sub_topic :: string
  sub_args_id :: "string option"
  sub_queue :: "payload list"
  sub_problem :: "problem option"
  sub_listening :: bool

text \<open>
  The server: \<^verbatim>\<open>storage.messages\<close> and the subscriptions of the pubsub, in the order
  their listeners were registered on the emitter. (The map \<^verbatim>\<open>this.subscriptions\<close> is
  written by \<^verbatim>\<open>subscribe\<close> and read nowhere; the counters of
  \<^verbatim>\<open>problemStats\<close> are only printed.)
\<close>

record server =
  storage_messages :: "msg list"
  emitter :: "subscription list"

text \<open>
  \<^verbatim>\<open>const listener = async (message) => {
    if (problem?.unresponsive && problem?.run) { return; }
    await sleep(MESSAGE_DELAY);
    queue.push(message); }\<close>
  The test is made when the message is emitted; every push is delayed by the same
  \<^verbatim>\<open>MESSAGE_DELAY\<close>, so the pushes keep the order of the emits.
\<close>

definition became_unresponsive :: "problem option \<Rightarrow> bool" where
  "became_unresponsive p = (case p of None \<Rightarrow> False | Some q \<Rightarrow> kind q = unresponsive \<and> run q)"

definition listener :: "payload \<Rightarrow> subscription \<Rightarrow> subscription" where
  "listener m sub =
     (if became_unresponsive (sub_problem sub) then sub
      else sub\<lparr>sub_queue := sub_queue sub @ [m]\<rparr>)"

text \<open>\<^verbatim>\<open>send(topic, message) { this.emitter.emit(topic, message); }\<close>\<close>

definition Pubsub_send :: "string \<Rightarrow> payload \<Rightarrow> server \<Rightarrow> server" where
  "Pubsub_send topic m s =
     s\<lparr>emitter := map (\<lambda>sub. if sub_listening sub \<and> sub_topic sub = topic
                               then listener m sub else sub) (emitter s)\<rparr>"

text \<open>
  \<^verbatim>\<open>sendMessage: async (_, { text, user }, { pubsub }) => {
    const message = { id: randomUUID(), text, user, at: new Date().toISOString() };
    storage.messages.push(message);
    pubsub.send('MESSAGE_SENT', { onMessage: message });
    return message; }\<close>
  The UUID drawn and the clock reading are inputs.
\<close>

definition sendMessage :: "string \<Rightarrow> string \<Rightarrow> string \<Rightarrow> string \<Rightarrow> server \<Rightarrow> msg \<times> server" where
  "sendMessage uuid now text user s =
     (let message = new_message uuid now text user;
          s1 = s\<lparr>storage_messages := storage_messages s @ [message]\<rparr>;
          s2 = Pubsub_send ''MESSAGE_SENT'' \<lparr>onMessage = message\<rparr> s1
      in (message, s2))"

text \<open>\<^verbatim>\<open>queue.push\<close> on the queue of the subscription registered last.\<close>

definition push_last :: "payload list \<Rightarrow> subscription list \<Rightarrow> subscription list" where
  "push_last ms subs =
     (case rev subs of [] \<Rightarrow> []
      | sub # before \<Rightarrow> rev before @ [sub\<lparr>sub_queue := sub_queue sub @ ms\<rparr>])"

text \<open>
  \<^verbatim>\<open>async subscribe(topic, queue, context, id) {
    const subscriptionId = context.id || randomUUID();
    const problem = scheduleSubscriptionProblem(subscriptionId);
    ...
    this.emitter.on(topic, subscription.listener);
    queue.on('close', subscription.close);
    this.subscriptions.set(subscriptionId, subscription);
    if (problem) { await triggerProblem(problem, context); }
    if (!id) { return; }
    const startIndex = storage.messages.findIndex((msg) => msg.id === id);
    if (startIndex !== -1) {
      const messagesToSend = storage.messages.slice(startIndex + 1);
      for (const message of messagesToSend) { queue.push({ onMessage: message }); }
    } else { (a debug log) } }\<close>
  The queue is new and empty at the call. \<^verbatim>\<open>triggerProblem\<close> only arms a timer;
  the call is modelled as one step, with no publish between the registration of the
  listener and the lookup of the cursor.
\<close>

definition Pubsub_subscribe ::
  "string \<Rightarrow> string \<Rightarrow> problem option \<Rightarrow> string option \<Rightarrow> server \<Rightarrow> server" where
  "Pubsub_subscribe topic subscriptionId problem id' s =
     (let sub = \<lparr>sub_id = subscriptionId, sub_topic = topic, sub_args_id = id',
                 sub_queue = [], sub_problem = problem, sub_listening = True\<rparr>;
          s1 = s\<lparr>emitter := emitter s @ [sub]\<rparr>
      in if \<not> truthy id' then s1
         else let startIndex = findIndex (\<lambda>m. Some (msg_id m) = id') (storage_messages s1)
              in if startIndex \<noteq> - 1
                 then let messagesToSend = slice (storage_messages s1) (startIndex + 1)
                      in s1\<lparr>emitter := push_last (map (\<lambda>message. \<lparr>onMessage = message\<rparr>)
                                                      messagesToSend) (emitter s1)\<rparr>
                 else s1)"

text \<open>
  The timer of a fault fires on the \<open>i\<close>-th subscription: an \<^verbatim>\<open>unresponsive\<close> fault
  sets \<^verbatim>\<open>problem.run = true\<close>; the two others end or destroy the socket, which closes
  the queue, and \<^verbatim>\<open>close\<close> removes the listener.
\<close>

definition fire_problem :: "subscription \<Rightarrow> subscription" where
  "fire_problem sub =
     (case sub_problem sub of
        None \<Rightarrow> sub
      | Some q \<Rightarrow> (if kind q = unresponsive then sub\<lparr>sub_problem := Some (q\<lparr>run := True\<rparr>)\<rparr>
                   else sub\<lparr>sub_listening := False\<rparr>))"

definition close_queue :: "subscription \<Rightarrow> subscription" where
  "close_queue sub = sub\<lparr>sub_listening := False\<rparr>"

definition at_index :: "nat \<Rightarrow> ('a \<Rightarrow> 'a) \<Rightarrow> 'a list \<Rightarrow> 'a list" where
  "at_index i f xs = (if i < length xs then xs[i := f (xs ! i)] else xs)"

text \<open>Everything that happens to the server, one event at a time.\<close>

datatype server_event =
    Publish string string string string
  | Subscribe string string "problem option" "string option"
  | ProblemTimer nat
  | QueueClosed nat

fun server_step :: "server_event \<Rightarrow> server \<Rightarrow> server" where
  "server_step (Publish uuid now text user) s = snd (sendMessage uuid now text user s)"
| "server_step (Subscribe topic subscriptionId problem id') s =
     Pubsub_subscribe topic subscriptionId problem id' s"
| "server_step (ProblemTimer i) s = s\<lparr>emitter := at_index i fire_problem (emitter s)\<rparr>"
| "server_step (QueueClosed i) s = s\<lparr>emitter := at_index i close_queue (emitter s)\<rparr>"

fun server_run :: "server_event list \<Rightarrow> server \<Rightarrow> server" where
  "server_run [] s = s"
| "server_run (e # es) s = server_run es (server_step e s)"

text \<open>The messages a run of events publishes, in order.\<close>

fun published :: "server_event list \<Rightarrow> msg list" where
  "published [] = []"
| "published (Publish uuid now text user # es) = new_message uuid now text user # published es"
| "published (e # es) = published es"

text \<open>
  Two views used to compare runs of the server: a run that only publishes, and the
  server with the recorded \<^verbatim>\<open>args.id\<close> of every subscription blanked (no code
  reads \<^verbatim>\<open>args\<close>).
\<close>

fun only_publishes :: "server_event list \<Rightarrow> bool" where
  "only_publishes [] = True"
| "only_publishes (Publish uuid now text user # es) = only_publishes es"
| "only_publishes (e # es) = False"

definition strip_args :: "subscription \<Rightarrow> subscription" where
  "strip_args sub = sub\<lparr>sub_args_id := None\<rparr>"

definition forget_args :: "server \<Rightarrow> server" where
  "forget_args s = s\<lparr>emitter := map strip_args (emitter s)\<rparr>"


section \<open>The subscriber: \<^verbatim>\<open>class GraphQLClient\<close>\<close>

text \<open>
  The client that reconnects and resumes (\<^verbatim>\<open>// For the demo purpose, the client can
  handle only one subscription at a time\<close>). Its constants:
\<close>

definition CONNECTION_TIMEOUT :: nat where "CONNECTION_TIMEOUT = 5000"
definition HEARTBEAT_INTERVAL :: nat where "HEARTBEAT_INTERVAL = 30000"
definition MAX_RECONNECT_ATTEMPTS :: nat where "MAX_RECONNECT_ATTEMPTS = 5"
definition INITIAL_RECONNECT_DELAY :: nat where "INITIAL_RECONNECT_DELAY = 2000"
definition MAX_RECONNECT_DELAY :: nat where "MAX_RECONNECT_DELAY = 30000"

text \<open>
  The frames the client writes with \<^verbatim>\<open>this.ws.send(JSON.stringify(...))\<close>. The two
  query texts of \<^verbatim>\<open>subscribe\<close> are literals of the source; the constructors
  \<open>OnMessageWithId\<close> and \<open>OnMessage\<close> stand for them.
\<close>

datatype query = OnMessageWithId | OnMessage

datatype frame_out =
    connection_init
  | start string query "string option"
  | stop string

text \<open>
  The frames the \<^verbatim>\<open>'message'\<close> handler tells apart:
  \<^verbatim>\<open>connection_ack\<close>; \<^verbatim>\<open>data\<close> with or without
  \<^verbatim>\<open>payload.data.onMessage\<close>; \<^verbatim>\<open>error\<close>; anything else.
\<close>

datatype frame_in =
    connection_ack
  | data "msg option"
  | error_frame string
  | other_frame

text \<open>
  The socket object \<^verbatim>\<open>this.ws\<close>: what has been written to it, the pings sent, and
  whether \<^verbatim>\<open>close()\<close> was called on it.
\<close>

record socket =
  sock_sent :: "frame_out list"
  sock_pings :: nat
  sock_closed :: bool

definition new_WebSocket :: socket where
  "new_WebSocket = \<lparr>sock_sent = [], sock_pings = 0, sock_closed = False\<rparr>"

text \<open>
  A message handler is a callback of the caller; \<open>Handler n\<close> names it. What is thrown:
  \<^verbatim>\<open>new Error(message)\<close>, or the \<^verbatim>\<open>TypeError\<close> of the runtime for a property read
  or a call on \<^verbatim>\<open>null\<close> or \<^verbatim>\<open>undefined\<close>.
\<close>

datatype handler = Handler nat

datatype client_error = Error string | TypeError

text \<open>
  The fields the constructor assigns, in its order. The constructor assigns no
  \<^verbatim>\<open>subscriptions\<close> and no method of the class does: \<open>subscriptions\<close> is the value a
  read of \<^verbatim>\<open>this.subscriptions\<close> gives, \<open>None\<close> for \<^verbatim>\<open>undefined\<close>, \<open>Some\<close> of
  the entries of a map if something outside the class has assigned one. The last three
  fields are not fields of the object: they record, in order, the handler calls made
  (\<^verbatim>\<open>this.messageHandler(message)\<close>), the delays passed to \<^verbatim>\<open>sleep\<close>, and the
  requests posted with \<^verbatim>\<open>fetch\<close> (url, text, user).
\<close>

record client =
  url :: string
  httpUrl :: string
  clientId :: "string option"
  ws :: "socket option"
  connected :: bool
  subscriptionId :: "string option"
  messageHandler :: "handler option"
  lastMessageId :: "string option"
  heartbeatInterval :: bool
  reconnectAttempts :: nat
  maxReconnectAttempts :: nat
  reconnectDelay :: nat
  shouldReconnect :: bool
  subscriptions :: "(string \<times> handler) list option"
  handler_calls :: "(handler \<times> msg) list"
  sleeps :: "nat list"
  posted :: "(string \<times> string \<times> string) list"

text \<open>\<^verbatim>\<open>String.prototype.replace(pattern, replacement)\<close> with a string pattern: the first occurrence.\<close>

fun replace :: "string \<Rightarrow> string \<Rightarrow> string \<Rightarrow> string" where
  "replace pat rep [] = (if pat = [] then rep else [])"
| "replace pat rep (ch # rest) =
     (if take (length pat) (ch # rest) = pat then rep @ drop (length pat) (ch # rest)
      else ch # replace pat rep rest)"

text \<open>
  \<^verbatim>\<open>constructor(url = 'ws://localhost:4000/graphql', clientId = null)\<close>
\<close>

definition GraphQLClient :: "string \<Rightarrow> string option \<Rightarrow> client" where
  "GraphQLClient url' clientId' =
     \<lparr>url = url',
      httpUrl = replace ''wss://'' ''https://'' (replace ''ws://'' ''http://'' url'),
      clientId = clientId',
      ws = None,
      connected = False,
      subscriptionId = None,
      messageHandler = None,
      lastMessageId = None,
      heartbeatInterval = False,
      reconnectAttempts = 0,
      maxReconnectAttempts = MAX_RECONNECT_ATTEMPTS,
      reconnectDelay = INITIAL_RECONNECT_DELAY,
      shouldReconnect = True,
      subscriptions = None,
      handler_calls = [],
      sleeps = [],
      posted = []\<rparr>"

text \<open>
  \<^verbatim>\<open>stopHeartbeat() { if (this.heartbeatInterval) { clearInterval(...);
     this.heartbeatInterval = null; } }\<close> and
  \<^verbatim>\<open>startHeartbeat() { this.stopHeartbeat(); this.heartbeatInterval = setInterval(...) }\<close>
  \<open>heartbeatInterval\<close> tells whether the field holds a timer.
\<close>

definition stopHeartbeat :: "client \<Rightarrow> client" where
  "stopHeartbeat c = (if heartbeatInterval c then c\<lparr>heartbeatInterval := False\<rparr> else c)"

definition startHeartbeat :: "client \<Rightarrow> client" where
  "startHeartbeat c = (stopHeartbeat c)\<lparr>heartbeatInterval := True\<rparr>"

text \<open>
  The callback of the interval:
  \<^verbatim>\<open>if (this.ws && this.ws.readyState === WebSocket.OPEN) { this.ws.ping(); }\<close>
  Whether the socket is open is the socket's own state: an input.
\<close>

definition heartbeat_tick :: "bool \<Rightarrow> client \<Rightarrow> client" where
  "heartbeat_tick ready c =
     (case ws c of
        None \<Rightarrow> c
      | Some sock \<Rightarrow> if ready then c\<lparr>ws := Some (sock\<lparr>sock_pings := sock_pings sock + 1\<rparr>)\<rparr> else c)"

text \<open>
  \<^verbatim>\<open>connect()\<close> up to the return of its promise:
  \<^verbatim>\<open>this.ws = new WebSocket(this.url, 'graphql-ws')\<close>, and the four handlers are
  registered. The handlers follow; each runs when the socket emits its event.
\<close>

definition connect :: "client \<Rightarrow> client" where
  "connect c = c\<lparr>ws := Some new_WebSocket\<rparr>"

text \<open>
  \<^verbatim>\<open>this.ws.on('open', () => {
    this.ws.send(JSON.stringify({ type: 'connection_init', payload: {} }));
    this.startHeartbeat();
    // Reset reconnect attempts on successful connection
    this.reconnectAttempts = 0;
    this.reconnectDelay = INITIAL_RECONNECT_DELAY; })\<close>
  With \<^verbatim>\<open>this.ws\<close> null the first statement throws and the handler ends there.
\<close>

definition on_open :: "client \<Rightarrow> client" where
  "on_open c =
     (case ws c of
        None \<Rightarrow> c
      | Some sock \<Rightarrow>
          let c1 = c\<lparr>ws := Some (sock\<lparr>sock_sent := sock_sent sock @ [connection_init]\<rparr>)\<rparr>;
              c2 = startHeartbeat c1;
              c3 = c2\<lparr>reconnectAttempts := 0\<rparr>
          in c3\<lparr>reconnectDelay := INITIAL_RECONNECT_DELAY\<rparr>)"

text \<open>
  \<^verbatim>\<open>this.ws.on('message', (data) => {
    const msg = JSON.parse(data.toString());
    if (msg.type === 'connection_ack') { this.connected = true; resolve(); }
    else if (msg.type === 'data' && msg.payload?.data?.onMessage) {
      const message = msg.payload.data.onMessage;
      if (message.id) { this.lastMessageId = message.id; }
      if (this.messageHandler) { this.messageHandler(message); } }
    else if (msg.type === 'error') { reject(new Error(msg.payload)); } })\<close>
\<close>

fun on_message :: "frame_in \<Rightarrow> client \<Rightarrow> client" where
  "on_message connection_ack c = c\<lparr>connected := True\<rparr>"
| "on_message (data None) c = c"
| "on_message (data (Some m)) c =
     (let c1 = (if msg_id m \<noteq> [] then c\<lparr>lastMessageId := Some (msg_id m)\<rparr> else c)
      in case messageHandler c1 of
           None \<Rightarrow> c1
         | Some h \<Rightarrow> c1\<lparr>handler_calls := handler_calls c1 @ [(h, m)]\<rparr>)"
| "on_message (error_frame p) c = c"
| "on_message other_frame c = c"

text \<open>
  \<^verbatim>\<open>this.ws.on('error', (error) => { this.stopHeartbeat();
     if (!this.connected) { reject(error); } })\<close>
\<close>

definition on_error :: "client \<Rightarrow> client" where
  "on_error c = stopHeartbeat c"

text \<open>\<^verbatim>\<open>clearSubscription() { this.subscriptionId = null; }\<close>\<close>

definition clearSubscription :: "client \<Rightarrow> client" where
  "clearSubscription c = c\<lparr>subscriptionId := None\<rparr>"

text \<open>
  \<^verbatim>\<open>attemptReconnect\<close> up to its \<^verbatim>\<open>await sleep(delay)\<close>:
  \<^verbatim>\<open>this.ws = null; this.clearSubscription();
  this.reconnectAttempts++;
  const delay = Math.min(this.reconnectDelay * 2 ** (this.reconnectAttempts - 1),
                         MAX_RECONNECT_DELAY);
  await sleep(delay);\<close>
  The result is the delay together with the client.
\<close>

definition attemptReconnect :: "client \<Rightarrow> nat \<times> client" where
  "attemptReconnect c =
     (let c1 = c\<lparr>ws := None\<rparr>;
          c2 = clearSubscription c1;
          c3 = c2\<lparr>reconnectAttempts := reconnectAttempts c2 + 1\<rparr>;
          delay = min (reconnectDelay c3 * 2 ^ (reconnectAttempts c3 - 1)) MAX_RECONNECT_DELAY
      in (delay, c3\<lparr>sleeps := sleeps c3 @ [delay]\<rparr>))"

text \<open>
  \<^verbatim>\<open>this.ws.on('close', (code, reason) => {
    this.connected = false; this.stopHeartbeat();
    if (this.shouldReconnect && this.reconnectAttempts < this.maxReconnectAttempts) {
      this.attemptReconnect(); } })\<close>
\<close>

definition on_close :: "client \<Rightarrow> client" where
  "on_close c =
     (let c1 = c\<lparr>connected := False\<rparr>;
          c2 = stopHeartbeat c1
      in if shouldReconnect c2 \<and> reconnectAttempts c2 < maxReconnectAttempts c2
         then snd (attemptReconnect c2) else c2)"

text \<open>
  \<^verbatim>\<open>subscribe(onMessage, id = null) {
    if (!this.connected) { throw new Error('Not connected to server'); }
    if (this.subscriptionId) { console.warn(...); return; }
    this.messageHandler = onMessage;
    this.subscriptionId = `subscription:client-${this.clientId}`;
    const query = id ? (the query with $id) : (the query without);
    const payload = { query, ...(id && { variables: { id } }) };
    this.ws.send(JSON.stringify({ id: this.subscriptionId, type: 'start', payload }));
    return this.subscriptionId; }\<close>
  The result is what is thrown (\<open>Inl\<close>) or returned (\<open>Inr\<close>, \<open>None\<close> for
  \<^verbatim>\<open>undefined\<close>), together with the client as the call leaves it.
\<close>

definition template_clientId :: "string option \<Rightarrow> string" where
  "template_clientId i = (case i of None \<Rightarrow> ''null'' | Some s \<Rightarrow> s)"

definition subscribe ::
  "handler option \<Rightarrow> string option \<Rightarrow> client \<Rightarrow> (client_error + string option) \<times> client" where
  "subscribe onMessage' id' c =
     (if \<not> connected c then (Inl (Error ''Not connected to server''), c)
      else if truthy (subscriptionId c) then (Inr None, c)
      else let c1 = c\<lparr>messageHandler := onMessage'\<rparr>;
               c2 = c1\<lparr>subscriptionId :=
                         Some (''subscription:client-'' @ template_clientId (clientId c1))\<rparr>;
               query = (if truthy id' then OnMessageWithId else OnMessage);
               variables = (if truthy id' then id' else None)
           in case ws c2 of
                None \<Rightarrow> (Inl TypeError, c2)
              | Some sock \<Rightarrow>
                  (Inr (subscriptionId c2),
                   c2\<lparr>ws := Some (sock\<lparr>sock_sent := sock_sent sock
                            @ [start (the (subscriptionId c2)) query variables]\<rparr>)\<rparr>))"

text \<open>
  \<^verbatim>\<open>async sendMessage(user, text) {
    if (!this.connected) { throw new Error('Not connected to server'); }
    try {
      const response = await fetch(this.httpUrl, { method: 'POST', ...
          body: JSON.stringify({ query: mutation, variables: { text, user } }) });
      const result = await response.json();
      if (result.errors) { throw new Error(result.errors[0].message); }
      return result.data.sendMessage;
    } catch (error) { console.error(...); throw error; } }\<close>
  What the request comes back with is an input: \<^verbatim>\<open>fetch\<close> or
  \<^verbatim>\<open>response.json()\<close> rejecting with some value, which the \<^verbatim>\<open>catch\<close> block
  logs and throws again as it is; a body with \<^verbatim>\<open>errors\<close>; or a body with the created
  message.
\<close>

datatype fetch_outcome =
    fetch_failed client_error
  | body_errors "string list"
  | body_data msg

definition client_sendMessage ::
  "string \<Rightarrow> string \<Rightarrow> fetch_outcome \<Rightarrow> client \<Rightarrow> (client_error + msg) \<times> client" where
  "client_sendMessage user text' outcome c =
     (if \<not> connected c then (Inl (Error ''Not connected to server''), c)
      else let c1 = c\<lparr>posted := posted c @ [(httpUrl c, text', user)]\<rparr>
           in case outcome of
                fetch_failed e \<Rightarrow> (Inl e, c1)
              | body_errors [] \<Rightarrow> (Inl TypeError, c1)
              | body_errors (e # es) \<Rightarrow> (Inl (Error e), c1)
              | body_data m \<Rightarrow> (Inr m, c1))"

text \<open>
  \<^verbatim>\<open>unsubscribe() {
    if (this.subscriptionId && this.ws) {
      this.ws.send(JSON.stringify({ id: this.subscriptionId, type: 'stop' }));
      this.subscriptionId = null;
      this.messageHandler = null; } }\<close>
\<close>

definition unsubscribe :: "client \<Rightarrow> client" where
  "unsubscribe c =
     (case ws c of
        None \<Rightarrow> c
      | Some sock \<Rightarrow>
          if truthy (subscriptionId c)
          then let c1 = c\<lparr>ws := Some (sock\<lparr>sock_sent := sock_sent sock
                                @ [stop (the (subscriptionId c))]\<rparr>)\<rparr>;
                   c2 = c1\<lparr>subscriptionId := None\<rparr>
               in c2\<lparr>messageHandler := None\<rparr>
          else c)"

text \<open>
  \<^verbatim>\<open>disconnect() {
    this.shouldReconnect = false; // Disable auto-reconnection
    this.stopHeartbeat();
    if (this.ws) {
      this.ws.close();
      this.connected = false;
      this.subscriptions.clear();
      this.messageHandler = null;
      this.subscriptionId = null;
      this.ws = null; } }\<close>
  \<^verbatim>\<open>this.subscriptions.clear()\<close> throws a \<^verbatim>\<open>TypeError\<close> when
  \<^verbatim>\<open>this.subscriptions\<close> is \<^verbatim>\<open>undefined\<close>, and the statements after it do not run.
\<close>

definition disconnect :: "client \<Rightarrow> (client_error + unit) \<times> client" where
  "disconnect c =
     (let c1 = c\<lparr>shouldReconnect := False\<rparr>;
          c2 = stopHeartbeat c1
      in case ws c2 of
           None \<Rightarrow> (Inr (), c2)
         | Some sock \<Rightarrow>
             let c3 = c2\<lparr>ws := Some (sock\<lparr>sock_closed := True\<rparr>)\<rparr>;
                 c4 = c3\<lparr>connected := False\<rparr>
             in case subscriptions c4 of
                  None \<Rightarrow> (Inl TypeError, c4)
                | Some entries \<Rightarrow>
                    let c5 = c4\<lparr>subscriptions := Some []\<rparr>;
                        c6 = c5\<lparr>messageHandler := None\<rparr>;
                        c7 = c6\<lparr>subscriptionId := None\<rparr>
                    in (Inr (), c7\<lparr>ws := None\<rparr>))"

text \<open>
  The rest of \<^verbatim>\<open>attemptReconnect\<close>. After the sleep:
  \<^verbatim>\<open>if (!this.shouldReconnect) { return; }
  try { await this.connect(); ...\<close>
  When the promise of \<^verbatim>\<open>connect\<close> resolves:
  \<^verbatim>\<open>this.subscribe(this.messageHandler, this.lastMessageId);\<close>
  When it rejects, or \<^verbatim>\<open>subscribe\<close> throws:
  \<^verbatim>\<open>catch (error) {
    if (this.reconnectAttempts < this.maxReconnectAttempts) { this.attemptReconnect(); }
    else { console.error('Max reconnection attempts reached...') } }\<close>
\<close>

definition attemptReconnect_after_sleep :: "client \<Rightarrow> client" where
  "attemptReconnect_after_sleep c = (if \<not> shouldReconnect c then c else connect c)"

definition attemptReconnect_catch :: "client \<Rightarrow> client" where
  "attemptReconnect_catch c =
     (if reconnectAttempts c < maxReconnectAttempts c then snd (attemptReconnect c) else c)"

definition attemptReconnect_connected :: "client \<Rightarrow> client" where
  "attemptReconnect_connected c =
     (case subscribe (messageHandler c) (lastMessageId c) c of
        (Inl err, c') \<Rightarrow> attemptReconnect_catch c'
      | (Inr r, c') \<Rightarrow> c')"

text \<open>
  Everything that can happen to a client: a call of one of its methods by its user, an
  event of the socket, a timer, or the promise awaited by \<^verbatim>\<open>attemptReconnect\<close>
  settling. What a call returns or throws goes to the caller; the step keeps the client.
\<close>

datatype client_event =
    Call_connect
  | Call_subscribe "handler option" "string option"
  | Call_sendMessage string string fetch_outcome
  | Call_unsubscribe
  | Call_disconnect
  | Ws_open
  | Ws_message frame_in
  | Ws_error
  | Ws_close
  | Heartbeat bool
  | Sleep_over
  | Reconnect_resolved
  | Reconnect_rejected

fun client_step :: "client_event \<Rightarrow> client \<Rightarrow> client" where
  "client_step Call_connect c = connect c"
| "client_step (Call_subscribe h i) c = snd (subscribe h i c)"
| "client_step (Call_sendMessage user text' outcome) c = snd (client_sendMessage user text' outcome c)"
| "client_step Call_unsubscribe c = unsubscribe c"
| "client_step Call_disconnect c = snd (disconnect c)"
| "client_step Ws_open c = on_open c"
| "client_step (Ws_message f) c = on_message f c"
| "client_step Ws_error c = on_error c"
| "client_step Ws_close c = on_close c"
| "client_step (Heartbeat ready) c = (if heartbeatInterval c then heartbeat_tick ready c else c)"
| "client_step Sleep_over c = attemptReconnect_after_sleep c"
| "client_step Reconnect_resolved c = attemptReconnect_connected c"
| "client_step Reconnect_rejected c = attemptReconnect_catch c"

fun client_run :: "client_event list \<Rightarrow> client \<Rightarrow> client" where
  "client_run [] c = c"
| "client_run (e # es) c = client_run es (client_step e c)"

text \<open>The calls made so far to one handler, and the events that register it.\<close>

definition calls_to :: "handler \<Rightarrow> client \<Rightarrow> msg list" where
  "calls_to h c = map snd (filter (\<lambda>hm. fst hm = h) (handler_calls c))"

fun registers :: "handler \<Rightarrow> client_event \<Rightarrow> bool" where
  "registers h (Call_subscribe g i) = (g = Some h)"
| "registers h e = False"

text \<open>The delay of the \<open>k\<close>-th attempt, in the words of the specification.\<close>

definition backoff :: "nat \<Rightarrow> nat" where
  "backoff k = min (INITIAL_RECONNECT_DELAY * 2 ^ (k - 1)) MAX_RECONNECT_DELAY"


section \<open>The earlier subscriber: the client with resume and several subscriptions\<close>

text \<open>
  The earlier \<^verbatim>\<open>class GraphQLClient\<close> (client-with-resume) keeps a map of subscriptions,
  a counter for subscription ids and a list of message handlers. Its constants are those
  of the later client but for \<^verbatim>\<open>INITIAL_RECONNECT_DELAY = 1000\<close>. The fields carry the
  suffix \<open>_r\<close>, and so do its methods. The map is an association list in insertion order;
  the last two fields record the handler calls made and the delays passed to
  \<^verbatim>\<open>sleep\<close>.
\<close>

definition INITIAL_RECONNECT_DELAY_r :: nat where "INITIAL_RECONNECT_DELAY_r = 1000"

record client_with_resume =
  url_r :: string
  clientId_r :: "string option"
  ws_r :: "socket option"
  connected_r :: bool
  subscriptions_r :: "(string \<times> handler) list"
  subscriptionId_r :: nat
  messageHandlers_r :: "handler list"
  lastMessageId_r :: "string option"
  heartbeatInterval_r :: bool
  reconnectAttempts_r :: nat
  maxReconnectAttempts_r :: nat
  reconnectDelay_r :: nat
  shouldReconnect_r :: bool
  handler_calls_r :: "(handler \<times> msg) list"
  sleeps_r :: "nat list"

text \<open>\<^verbatim>\<open>Map.prototype.set\<close>, \<^verbatim>\<open>has\<close> and \<^verbatim>\<open>delete\<close>.\<close>

definition Map_set :: "string \<Rightarrow> 'v \<Rightarrow> (string \<times> 'v) list \<Rightarrow> (string \<times> 'v) list" where
  "Map_set k v m =
     (if k \<in> set (map fst m) then map (\<lambda>kv. if fst kv = k then (k, v) else kv) m
      else m @ [(k, v)])"

definition Map_has :: "string \<Rightarrow> (string \<times> 'v) list \<Rightarrow> bool" where
  "Map_has k m = (k \<in> set (map fst m))"

definition Map_delete :: "string \<Rightarrow> (string \<times> 'v) list \<Rightarrow> (string \<times> 'v) list" where
  "Map_delete k m = filter (\<lambda>kv. fst kv \<noteq> k) m"

text \<open>A number in a template literal: its decimal digits.\<close>

fun string_of_nat :: "nat \<Rightarrow> string" where
  "string_of_nat n =
     (if n < 10 then [''0123456789'' ! n]
      else string_of_nat (n div 10) @ [''0123456789'' ! (n mod 10)])"

declare string_of_nat.simps [simp del]

text \<open>
  \<^verbatim>\<open>constructor(url = 'ws://localhost:4000/graphql', clientId = null) {
    this.url = url; this.clientId = clientId; this.ws = null; this.connected = false;
    this.subscriptions = new Map(); this.subscriptionId = 0; this.messageHandlers = [];
    this.lastMessageId = null; this.heartbeatInterval = null; this.reconnectAttempts = 0;
    this.maxReconnectAttempts = MAX_RECONNECT_ATTEMPTS;
    this.reconnectDelay = INITIAL_RECONNECT_DELAY; this.shouldReconnect = true; }\<close>
\<close>

definition GraphQLClient_r :: "string \<Rightarrow> string option \<Rightarrow> client_with_resume" where
  "GraphQLClient_r url' clientId' =
     \<lparr>url_r = url',
      clientId_r = clientId',
      ws_r = None,
      connected_r = False,
      subscriptions_r = [],
      subscriptionId_r = 0,
      messageHandlers_r = [],
      lastMessageId_r = None,
      heartbeatInterval_r = False,
      reconnectAttempts_r = 0,
      maxReconnectAttempts_r = MAX_RECONNECT_ATTEMPTS,
      reconnectDelay_r = INITIAL_RECONNECT_DELAY_r,
      shouldReconnect_r = True,
      handler_calls_r = [],
      sleeps_r = []\<rparr>"

text \<open>
  \<^verbatim>\<open>stopHeartbeat\<close>, \<^verbatim>\<open>startHeartbeat\<close>, \<^verbatim>\<open>connect\<close> and the handlers of
  \<^verbatim>\<open>open\<close> and \<^verbatim>\<open>error\<close> read as in the later client.
\<close>

definition stopHeartbeat_r :: "client_with_resume \<Rightarrow> client_with_resume" where
  "stopHeartbeat_r c = (if heartbeatInterval_r c then c\<lparr>heartbeatInterval_r := False\<rparr> else c)"

definition startHeartbeat_r :: "client_with_resume \<Rightarrow> client_with_resume" where
  "startHeartbeat_r c = (stopHeartbeat_r c)\<lparr>heartbeatInterval_r := True\<rparr>"

definition connect_r :: "client_with_resume \<Rightarrow> client_with_resume" where
  "connect_r c = c\<lparr>ws_r := Some new_WebSocket\<rparr>"

definition on_open_r :: "client_with_resume \<Rightarrow> client_with_resume" where
  "on_open_r c =
     (case ws_r c of
        None \<Rightarrow> c
      | Some sock \<Rightarrow>
          let c1 = c\<lparr>ws_r := Some (sock\<lparr>sock_sent := sock_sent sock @ [connection_init]\<rparr>)\<rparr>;
              c2 = startHeartbeat_r c1;
              c3 = c2\<lparr>reconnectAttempts_r := 0\<rparr>
          in c3\<lparr>reconnectDelay_r := INITIAL_RECONNECT_DELAY_r\<rparr>)"

definition on_error_r :: "client_with_resume \<Rightarrow> client_with_resume" where
  "on_error_r c = stopHeartbeat_r c"

text \<open>
  The \<^verbatim>\<open>message\<close> handler differs in its dispatch:
  \<^verbatim>\<open>if (message.id) { this.lastMessageId = message.id; }
  // Call all registered message handlers
  this.messageHandlers.forEach((handler) => { handler(message); });\<close>
\<close>

fun on_message_r :: "frame_in \<Rightarrow> client_with_resume \<Rightarrow> client_with_resume" where
  "on_message_r connection_ack c = c\<lparr>connected_r := True\<rparr>"
| "on_message_r (data None) c = c"
| "on_message_r (data (Some m)) c =
     (let c1 = (if msg_id m \<noteq> [] then c\<lparr>lastMessageId_r := Some (msg_id m)\<rparr> else c)
      in c1\<lparr>handler_calls_r := handler_calls_r c1 @ map (\<lambda>h. (h, m)) (messageHandlers_r c1)\<rparr>)"
| "on_message_r (error_frame p) c = c"
| "on_message_r other_frame c = c"

text \<open>
  \<^verbatim>\<open>subscribe(onMessage, id = null) {
    if (!this.connected) { throw new Error('Not connected to server'); }
    const subscriptionId = `subscription:${this.clientId}-${++this.subscriptionId}`;
    // Add message handler
    this.messageHandlers.push(onMessage);
    const query = id ? (the query with $id) : (the query without);
    const payload = { query, ...(id && { variables: { id } }) };
    this.ws.send(JSON.stringify({ id: subscriptionId, type: 'start', payload }));
    this.subscriptions.set(subscriptionId, onMessage);
    return subscriptionId; }\<close>
\<close>

definition subscribe_r ::
  "handler \<Rightarrow> string option \<Rightarrow> client_with_resume \<Rightarrow> (client_error + string) \<times> client_with_resume" where
  "subscribe_r onMessage' id' c =
     (if \<not> connected_r c then (Inl (Error ''Not connected to server''), c)
      else let c1 = c\<lparr>subscriptionId_r := subscriptionId_r c + 1\<rparr>;
               subscriptionId' = ''subscription:'' @ template_clientId (clientId_r c1) @ ''-''
                                   @ string_of_nat (subscriptionId_r c1);
               c2 = c1\<lparr>messageHandlers_r := messageHandlers_r c1 @ [onMessage']\<rparr>;
               query = (if truthy id' then OnMessageWithId else OnMessage);
               variables = (if truthy id' then id' else None)
           in case ws_r c2 of
                None \<Rightarrow> (Inl TypeError, c2)
              | Some sock \<Rightarrow>
                  let c3 = c2\<lparr>ws_r := Some (sock\<lparr>sock_sent := sock_sent sock
                                 @ [start subscriptionId' query variables]\<rparr>)\<rparr>
                  in (Inr subscriptionId',
                      c3\<lparr>subscriptions_r := Map_set subscriptionId' onMessage' (subscriptions_r c3)\<rparr>))"

text \<open>
  \<^verbatim>\<open>unsubscribe(subscriptionId) {
    if (this.subscriptions.has(subscriptionId)) {
      this.ws.send(JSON.stringify({ id: subscriptionId, type: 'stop' }));
      this.subscriptions.delete(subscriptionId); } }\<close>
  The handler pushed by \<^verbatim>\<open>subscribe\<close> stays in \<^verbatim>\<open>this.messageHandlers\<close>.
\<close>

definition unsubscribe_r ::
  "string \<Rightarrow> client_with_resume \<Rightarrow> (client_error + unit) \<times> client_with_resume" where
  "unsubscribe_r subscriptionId' c =
     (if Map_has subscriptionId' (subscriptions_r c)
      then case ws_r c of
             None \<Rightarrow> (Inl TypeError, c)
           | Some sock \<Rightarrow>
               let c1 = c\<lparr>ws_r := Some (sock\<lparr>sock_sent := sock_sent sock @ [stop subscriptionId']\<rparr>)\<rparr>
               in (Inr (), c1\<lparr>subscriptions_r := Map_delete subscriptionId' (subscriptions_r c1)\<rparr>)
      else (Inr (), c))"

text \<open>
  \<^verbatim>\<open>subscribeWithResume() {
    if (this.messageHandlers.length > 0 && this.connected) {
      this.subscriptions.clear();
      const resumeId = this.lastMessageId;
      this.messageHandlers.forEach((handler) => { this.subscribe(handler, resumeId); }); } }\<close>
  \<^verbatim>\<open>forEach\<close> visits the elements the array had when it was called; what
  \<^verbatim>\<open>subscribe\<close> pushes meanwhile is not visited. A throw of \<^verbatim>\<open>subscribe\<close> ends it.
\<close>

fun subscribe_each ::
  "handler list \<Rightarrow> string option \<Rightarrow> client_with_resume \<Rightarrow> (client_error + unit) \<times> client_with_resume" where
  "subscribe_each [] resumeId c = (Inr (), c)"
| "subscribe_each (h # hs) resumeId c =
     (case subscribe_r h resumeId c of
        (Inl err, c') \<Rightarrow> (Inl err, c')
      | (Inr r, c') \<Rightarrow> subscribe_each hs resumeId c')"

definition subscribeWithResume ::
  "client_with_resume \<Rightarrow> (client_error + unit) \<times> client_with_resume" where
  "subscribeWithResume c =
     (if length (messageHandlers_r c) > 0 \<and> connected_r c
      then let c1 = c\<lparr>subscriptions_r := []\<rparr>;
               resumeId = lastMessageId_r c1
           in subscribe_each (messageHandlers_r c1) resumeId c1
      else (Inr (), c))"

text \<open>
  \<^verbatim>\<open>attemptReconnect\<close>, cut at its awaits as for the later client:
  \<^verbatim>\<open>this.reconnectAttempts++;
  const delay = Math.min(this.reconnectDelay * 2 ** (this.reconnectAttempts - 1),
                         MAX_RECONNECT_DELAY);
  await sleep(delay);
  if (!this.shouldReconnect) { return; }
  try { await this.connect();
        if (this.messageHandlers.length > 0) { this.subscribeWithResume(); }
  } catch (error) {
    if (this.reconnectAttempts < this.maxReconnectAttempts) { this.attemptReconnect(); }
    else { console.error(...) } }\<close>
  and the \<^verbatim>\<open>close\<close> handler
  \<^verbatim>\<open>this.connected = false; this.stopHeartbeat();
  if (this.shouldReconnect && this.reconnectAttempts < this.maxReconnectAttempts) {
    this.attemptReconnect(); }\<close>
\<close>

definition attemptReconnect_r :: "client_with_resume \<Rightarrow> nat \<times> client_with_resume" where
  "attemptReconnect_r c =
     (let c1 = c\<lparr>reconnectAttempts_r := reconnectAttempts_r c + 1\<rparr>;
          delay = min (reconnectDelay_r c1 * 2 ^ (reconnectAttempts_r c1 - 1)) MAX_RECONNECT_DELAY
      in (delay, c1\<lparr>sleeps_r := sleeps_r c1 @ [delay]\<rparr>))"

definition on_close_r :: "client_with_resume \<Rightarrow> client_with_resume" where
  "on_close_r c =
     (let c1 = c\<lparr>connected_r := False\<rparr>;
          c2 = stopHeartbeat_r c1
      in if shouldReconnect_r c2 \<and> reconnectAttempts_r c2 < maxReconnectAttempts_r c2
         then snd (attemptReconnect_r c2) else c2)"

definition attemptReconnect_after_sleep_r :: "client_with_resume \<Rightarrow> client_with_resume" where
  "attemptReconnect_after_sleep_r c = (if \<not> shouldReconnect_r c then c else connect_r c)"

definition attemptReconnect_catch_r :: "client_with_resume \<Rightarrow> client_with_resume" where
  "attemptReconnect_catch_r c =
     (if reconnectAttempts_r c < maxReconnectAttempts_r c then snd (attemptReconnect_r c) else c)"

definition attemptReconnect_connected_r :: "client_with_resume \<Rightarrow> client_with_resume" where
  "attemptReconnect_connected_r c =
     (if length (messageHandlers_r c) > 0
      then case subscribeWithResume c of
             (Inl err, c') \<Rightarrow> attemptReconnect_catch_r c'
           | (Inr r, c') \<Rightarrow> c'
      else c)"

text \<open>
  \<^verbatim>\<open>disconnect() {
    this.shouldReconnect = false; this.stopHeartbeat();
    if (this.ws) {
      this.ws.close(); this.connected = false;
      this.subscriptions.clear(); this.messageHandlers = [];
      this.ws = null; } }\<close>
\<close>

definition disconnect_r :: "client_with_resume \<Rightarrow> client_with_resume" where
  "disconnect_r c =
     (let c1 = c\<lparr>shouldReconnect_r := False\<rparr>;
          c2 = stopHeartbeat_r c1
      in case ws_r c2 of
           None \<Rightarrow> c2
         | Some sock \<Rightarrow>
             let c3 = c2\<lparr>ws_r := Some (sock\<lparr>sock_closed := True\<rparr>)\<rparr>;
                 c4 = c3\<lparr>connected_r := False\<rparr>;
                 c5 = c4\<lparr>subscriptions_r := []\<rparr>;
                 c6 = c5\<lparr>messageHandlers_r := []\<rparr>
             in c6\<lparr>ws_r := None\<rparr>)"


section \<open>Concrete inputs\<close>

text \<open>Three messages with version-4 UUIDs, as \<^verbatim>\<open>randomUUID()\<close> may draw them.\<close>

definition uuid_1 :: string where "uuid_1 = ''c56a4180-65aa-42ec-a945-5fd21dec0538''"
definition uuid_2 :: string where "uuid_2 = ''0f8fad5b-d9cb-469f-a165-70867728950e''"
definition uuid_3 :: string where "uuid_3 = ''7c9e6679-7425-40de-944b-e07fc1f90ae7''"

definition hello_1 :: msg where
  "hello_1 = new_message uuid_1 ''2025-01-01T00:00:00.000Z'' ''hello'' ''ann''"
definition hello_2 :: msg where
  "hello_2 = new_message uuid_2 ''2025-01-01T00:00:01.000Z'' ''again'' ''bob''"
definition hello_3 :: msg where
  "hello_3 = new_message uuid_3 ''2025-01-01T00:00:02.000Z'' ''bye'' ''ann''"

definition client_0 :: client where
  "client_0 = GraphQLClient ''ws://localhost:4000/graphql'' (Some ''1'')"

definition subscribed_client :: client where
  "subscribed_client =
     client_run [Call_connect, Ws_open, Ws_message connection_ack,
                 Call_subscribe (Some (Handler 1)) None] client_0"

definition retrying_client :: client where
  "retrying_client =
     client_run [Call_connect, Ws_open, Ws_message connection_ack, Ws_close,
                 Sleep_over, Reconnect_rejected] client_0"

text \<open>
  A client whose socket closed and whose reconnections open a socket that the server never
  acknowledges: each \<^verbatim>\<open>connect\<close> of \<^verbatim>\<open>attemptReconnect\<close> rejects with the
  connection timeout.
\<close>

definition unacknowledged_client :: client where
  "unacknowledged_client =
     client_run [Call_connect, Ws_open, Ws_message connection_ack, Ws_close,
                 Sleep_over, Ws_open, Reconnect_rejected,
                 Sleep_over, Ws_open, Reconnect_rejected,
                 Sleep_over, Ws_open, Reconnect_rejected] client_0"

text \<open>
  The earlier client, connected, acknowledged and subscribed with one handler; then
  unsubscribed; then after a close and a reconnection that succeeds.
\<close>

definition subscribed_client_r :: client_with_resume where
  "subscribed_client_r =
     snd (subscribe_r (Handler 1) None
       (on_message_r connection_ack
         (on_open_r (connect_r (GraphQLClient_r ''ws://localhost:4000/graphql'' (Some ''1''))))))"

definition unsubscribed_client_r :: client_with_resume where
  "unsubscribed_client_r = snd (unsubscribe_r ''subscription:1-1'' subscribed_client_r)"

definition reconnected_client_r :: client_with_resume where
  "reconnected_client_r =
     attemptReconnect_connected_r
       (on_message_r connection_ack
         (on_open_r
           (attemptReconnect_after_sleep_r
             (on_close_r (on_message_r (data (Some hello_1)) unsubscribed_client_r)))))"

text \<open>
  The earlier client in the situation of \<open>unacknowledged_client\<close>: acknowledged once,
  closed, and then three reconnections whose socket opens and whose \<^verbatim>\<open>connect\<close>
  rejects.
\<close>

definition unacknowledged_client_r :: client_with_resume where
  "unacknowledged_client_r =
     attemptReconnect_catch_r (on_open_r (attemptReconnect_after_sleep_r
       (attemptReconnect_catch_r (on_open_r (attemptReconnect_after_sleep_r
         (attemptReconnect_catch_r (on_open_r (attemptReconnect_after_sleep_r
           (on_close_r (on_message_r connection_ack (on_open_r (connect_r
              (GraphQLClient_r ''ws://localhost:4000/graphql'' (Some ''1''))))))))))))))"

definition empty_server :: server where
  "empty_server = \<lparr>storage_messages = [], emitter = []\<rparr>"


section \<open>Properties of the intermediary\<close>

lemma sent_frames_resend_loop: "sent_frames (resend_loop ms) = map message ms"
  by (induction ms) simp_all

lemma paced_resend_loop: "paced 250 (resend_loop ms)"
  by (induction ms) simp_all

text \<open>
  C6. Buffer pruning on liveness acknowledgment: after the proxy has processed a pong at
  time \<open>T\<close>, the checkpoint \<open>lastPong\<close> is \<open>T\<close> and every entry left in the backup
  buffer was enqueued strictly after \<open>T\<close>; so no entry with timestamp at most \<open>T\<close>
  remains, whatever the buffer held and whatever \<open>T\<close> is.
\<close>

theorem onPong_prunes_buffer:
  "lastPong (onPong T p) = T \<and> (\<forall>e \<in> set (backup (onPong T p)). T < timestamp e)"
  by (simp add: onPong_def Let_def)

theorem onPong_prunes_buffer_witness:
  "lastPong (onPong 20 \<lparr>backup = [\<lparr>message = ''a'', timestamp = 10\<rparr>,
                                    \<lparr>message = ''b'', timestamp = 20\<rparr>,
                                    \<lparr>message = ''c'', timestamp = 21\<rparr>], lastPong = 5\<rparr>) = 20
   \<and> backup (onPong 20 \<lparr>backup = [\<lparr>message = ''a'', timestamp = 10\<rparr>,
                                  \<lparr>message = ''b'', timestamp = 20\<rparr>,
                                  \<lparr>message = ''c'', timestamp = 21\<rparr>], lastPong = 5\<rparr>)
       = [\<lparr>message = ''c'', timestamp = 21\<rparr>]"
  using onPong_prunes_buffer [of 20 "\<lparr>backup = [\<lparr>message = ''a'', timestamp = 10\<rparr>,
                                    \<lparr>message = ''b'', timestamp = 20\<rparr>,
                                    \<lparr>message = ''c'', timestamp = 21\<rparr>], lastPong = 5\<rparr>"]
  by (simp add: onPong_def Let_def)

text \<open>
  The proxy with the filter: for every buffer, checkpoint \<open>lastPong\<close> and reconnect time
  \<open>now\<close>, \<open>resendMessages\<close> sends exactly the frames of the buffer entries stamped
  strictly after \<open>lastPong\<close> and not after \<open>now\<close>, in buffer order, each send
  followed by the fixed wait of 250 ms; entries stamped at or before the checkpoint are
  never resent: removing them from the buffer changes nothing of what is sent.
\<close>

lemma resendMessages_replay_window:
  "sent_frames (resendMessages now p)
     = map message (filter (\<lambda>m. lastPong p < timestamp m \<and> timestamp m \<le> now) (backup p))
   \<and> paced 250 (resendMessages now p)
   \<and> length (resendMessages now p)
       = 2 * length (filter (\<lambda>m. lastPong p < timestamp m \<and> timestamp m \<le> now) (backup p))
   \<and> resendMessages now p
       = resendMessages now (p\<lparr>backup := filter (\<lambda>m. lastPong p < timestamp m) (backup p)\<rparr>)"
proof -
  let ?sel = "filter (\<lambda>m. lastPong p < timestamp m \<and> timestamp m \<le> now) (backup p)"
  have len: "length (resend_loop ms) = 2 * length ms" for ms
    by (induction ms) simp_all
  have r: "resendMessages now p = resend_loop ?sel"
    by (cases ?sel) (simp_all add: resendMessages_def Let_def)
  have drop_old: "resendMessages now p
      = resendMessages now (p\<lparr>backup := filter (\<lambda>m. lastPong p < timestamp m) (backup p)\<rparr>)"
    by (simp add: resendMessages_def Let_def conj_commute cong: conj_cong)
  have "sent_frames (resendMessages now p) = map message ?sel"
    unfolding r by (rule sent_frames_resend_loop)
  moreover have "paced 250 (resendMessages now p)"
    unfolding r by (rule paced_resend_loop)
  moreover have "length (resendMessages now p) = 2 * length ?sel"
    unfolding r by (rule len)
  ultimately show ?thesis
    using drop_old by blast
qed


text \<open>
  The draft of the proxy, when no hook runs during its waits: it sends the frames of the
  entries stamped from \<open>lastPong\<close> on, the checkpoint itself included, and not after
  \<open>now\<close>. Whatever runs during the waits, a first entry inside that closed window is
  sent first.
\<close>

lemma resendMessages_draft_loop_quiet:
  "resendMessages_draft_loop now i [] (p, walked, same)
     = resend_loop (filter (\<lambda>m. lastPong p \<le> timestamp m \<and> timestamp m \<le> now) (drop i walked))"
proof (induction "length walked - i" arbitrary: i)
  case 0
  then show ?case by simp
next
  case (Suc n)
  then have i: "i < length walked" and n: "n = length walked - (i + 1)"
    by simp_all
  have d: "drop i walked = walked ! i # drop (i + 1) walked"
    using i by (simp add: Cons_nth_drop_Suc)
  show ?case
    using Suc.hyps(1) [OF n] i
    by (subst resendMessages_draft_loop.simps, subst d) (auto simp: not_less)
qed

lemma resendMessages_draft_quiet:
  "resendMessages_draft now [] p
     = resend_loop (filter (\<lambda>m. lastPong p \<le> timestamp m \<and> timestamp m \<le> now) (backup p))"
  by (simp add: resendMessages_draft_def resendMessages_draft_loop_quiet
      del: resendMessages_draft_loop.simps)

lemma resendMessages_draft_first:
  assumes "backup p = m # ms" and "lastPong p \<le> timestamp m" and "timestamp m \<le> now"
  shows "\<exists>rest. resendMessages_draft now waits p = Send (message m) # Wait 250 # rest"
  using assms by (simp add: resendMessages_draft_def)

text \<open>
  C7. Replay window on upstream reconnect: the specification says that frames stamped at
  or before the checkpoint are never resent. A pong at time 5 followed, within the same
  millisecond, by a frame from the client leaves the buffer holding that frame with
  timestamp 5 and \<open>lastPong = 5\<close>. On a reconnect at time 10 the draft of the proxy,
  which skips an entry only when \<^verbatim>\<open>m.timestamp < lastPong\<close>, sends the frame and waits
  250 ms; the proxy with the filter \<^verbatim>\<open>m.timestamp > lastPong\<close> sends nothing.
\<close>

theorem draft_resends_checkpoint_frame:
  "fst (draft_hooks [Pong 5, IncomingMessage ''frame'' 5] (\<lparr>backup = [], lastPong = 0\<rparr>, [], True))
     = \<lparr>backup = [\<lparr>message = ''frame'', timestamp = 5\<rparr>], lastPong = 5\<rparr>
   \<and> resendMessages_draft 10 [] \<lparr>backup = [\<lparr>message = ''frame'', timestamp = 5\<rparr>], lastPong = 5\<rparr>
     = [Send ''frame'', Wait 250]
   \<and> resendMessages 10 \<lparr>backup = [\<lparr>message = ''frame'', timestamp = 5\<rparr>], lastPong = 5\<rparr> = []"
  by (simp add: resendMessages_draft_def resendMessages_def onPong_def)


section \<open>Helpers: arrays and the live loop\<close>

lemma findIndex_from_eq:
  "findIndex_from i P xs =
     (if \<exists>x \<in> set xs. P x then i + int (length (takeWhile (\<lambda>x. \<not> P x) xs)) else - 1)"
  by (induction xs arbitrary: i) auto

lemma findIndex_found:
  "\<exists>x \<in> set xs. P x \<Longrightarrow> findIndex P xs = int (length (takeWhile (\<lambda>x. \<not> P x) xs))"
  by (simp add: findIndex_def findIndex_from_eq)

lemma findIndex_missing: "\<forall>x \<in> set xs. \<not> P x \<Longrightarrow> findIndex P xs = - 1"
  by (simp add: findIndex_def findIndex_from_eq)

lemma drop_takeWhile_length: "drop (length (takeWhile Q xs)) xs = dropWhile Q xs"
  by (induction xs) auto

lemma slice_findIndex:
  assumes "\<exists>x \<in> set xs. P x"
  shows "slice xs (findIndex P xs) = dropWhile (\<lambda>x. \<not> P x) xs"
proof -
  have "length (takeWhile (\<lambda>x. \<not> P x) xs) \<le> length xs"
    by (rule length_takeWhile_le)
  then show ?thesis
    using assms by (simp add: slice_def findIndex_found Let_def min_def drop_takeWhile_length)
qed

lemma slice_findIndex_Suc:
  assumes "\<exists>x \<in> set xs. P x"
  shows "slice xs (findIndex P xs + 1) = tl (dropWhile (\<lambda>x. \<not> P x) xs)"
proof -
  have "length (takeWhile (\<lambda>x. \<not> P x) xs) < length xs"
    using assms by (induction xs) auto
  then have "slice xs (findIndex P xs + 1) = drop (Suc (length (takeWhile (\<lambda>x. \<not> P x) xs))) xs"
    using assms by (simp add: slice_def findIndex_found Let_def min_def nat_add_distrib)
  also have "\<dots> = tl (dropWhile (\<lambda>x. \<not> P x) xs)"
    by (simp add: drop_Suc drop_tl drop_takeWhile_length)
  finally show ?thesis .
qed

lemma live_loop_open: "live_loop ms True live = live"
  by (induction live) simp_all

lemma live_loop_gate:
  "ms \<noteq> [] \<Longrightarrow> live_loop ms False live = after_stitch (msg_id (last ms)) live"
  by (induction live) (simp_all add: after_stitch_def live_loop_open)

lemmas fixture_defs = uuid_1_def uuid_2_def uuid_3_def hello_1_def hello_2_def hello_3_def
  new_message_def empty_server_def


section \<open>The message log\<close>

lemma storage_server_step:
  "storage_messages (server_step e s) = storage_messages s @ published [e]"
  by (cases e) (simp_all add: sendMessage_def Pubsub_send_def Pubsub_subscribe_def Let_def)

lemma published_Cons: "published (e # es) = published [e] @ published es"
  by (cases e) simp_all


text \<open>
  C2, as the specification states it: the ids in the log are strictly increasing in
  insertion order. The id of a message is what \<^verbatim>\<open>randomUUID()\<close> returns, and the
  resolver stores it as drawn: when the generator returns \<open>uuid_1\<close> and then \<open>uuid_2\<close>,
  the log holds them in that order, and \<open>uuid_1\<close> is not below \<open>uuid_2\<close> in the order
  of strings.
\<close>

theorem log_ids_unordered_counterexample:
  "map msg_id (storage_messages
      (server_run [Publish uuid_1 ''2025-01-01T00:00:00.000Z'' ''hello'' ''ann'',
                   Publish uuid_2 ''2025-01-01T00:00:01.000Z'' ''again'' ''bob''] empty_server))
     = [uuid_1, uuid_2]
   \<and> \<not> uuid_1 < uuid_2
   \<and> \<not> sorted_wrt (<) (map msg_id (storage_messages
      (server_run [Publish uuid_1 ''2025-01-01T00:00:00.000Z'' ''hello'' ''ann'',
                   Publish uuid_2 ''2025-01-01T00:00:01.000Z'' ''again'' ''bob''] empty_server)))"
  by (simp add: sendMessage_def Pubsub_send_def Let_def fixture_defs)

text \<open>
  No other order on ids helps: the generator may as well return the same two UUIDs the
  other way round, and no asymmetric relation has both logs increasing.
\<close>

lemma log_ids_no_order:
  assumes "\<And>x y. R x y \<Longrightarrow> \<not> R y x"
  shows "\<not> (sorted_wrt R (map msg_id (storage_messages
             (server_run [Publish uuid_1 ''2025-01-01T00:00:00.000Z'' ''hello'' ''ann'',
                          Publish uuid_2 ''2025-01-01T00:00:01.000Z'' ''again'' ''bob'']
                empty_server)))
          \<and> sorted_wrt R (map msg_id (storage_messages
             (server_run [Publish uuid_2 ''2025-01-01T00:00:00.000Z'' ''hello'' ''ann'',
                          Publish uuid_1 ''2025-01-01T00:00:01.000Z'' ''again'' ''bob'']
                empty_server))))"
  using assms [of uuid_1 uuid_2]
  by (auto simp: sendMessage_def Pubsub_send_def Let_def new_message_def empty_server_def)

text \<open>
  C2, amended: the log is append-only. Whatever happens to the server (publishing,
  subscribing, fault timers, closed queues), the log afterwards is the log before followed
  by the messages published meanwhile, one per publish, in publish order, each carrying
  the UUID drawn for it; no earlier entry is changed or removed. The order of the log is
  the order of insertion alone: the ids are random and carry none.
\<close>

theorem message_log_append_only:
  "storage_messages (server_run es s) = storage_messages s @ published es"
proof (induction es arbitrary: s)
  case Nil
  show ?case by simp
next
  case (Cons e es)
  have "storage_messages (server_run (e # es) s)
          = (storage_messages s @ published [e]) @ published es"
    by (simp add: Cons.IH storage_server_step)
  then show ?case
    using published_Cons [of e es] by simp
qed


section \<open>Subscribing with a cursor: the resumable server\<close>

lemma onMessage_after_stitch:
  "map onMessage (after_stitch i live) = tl (dropWhile (\<lambda>m. msg_id m \<noteq> i) (map onMessage live))"
  by (simp add: after_stitch_def map_tl dropWhile_map comp_def)

lemma stitch_on_history:
  assumes d: "distinct (map msg_id (log @ new))"
      and ne: "log \<noteq> []"
      and h: "log @ new = pre @ S"
  shows "tl (dropWhile (\<lambda>m. msg_id m \<noteq> msg_id (last log)) S) = (if length pre < length log then new else [])"
proof (cases "length pre < length log")
  case True
  have "pre = take (length pre) log"
    using h True by (metis append_eq_conv_conj less_imp_le_nat take_append take_all_iff order_refl
        diff_is_0_eq' take0 append_Nil2)
  then obtain k where k: "log = pre @ k"
    by (metis append_take_drop_id)
  have kne: "k \<noteq> []" using k True by auto
  have S: "S = k @ new" using h k by simp
  obtain bk x where kx: "k = bk @ [x]"
    using kne by (cases k rule: rev_cases) auto
  have lk: "last log = x" using k kx by simp
  have dk: "distinct (map msg_id (bk @ [x]))"
    using d k kx by (metis distinct_append map_append)
  have skip: "\<And>m. m \<in> set bk \<Longrightarrow> msg_id m \<noteq> msg_id x"
    using dk by (force simp: image_iff)
  have "dropWhile (\<lambda>m. msg_id m \<noteq> msg_id x) (bk @ (x # new)) = x # new"
    using skip by (simp add: dropWhile_append2)
  then show ?thesis using True S lk kx by simp
next
  case False
  have "log = take (length log) pre"
    using h False by (metis append_eq_conv_conj not_less take_append take_all_iff order_refl
        diff_is_0_eq' take0 append_Nil2)
  then obtain j where j: "pre = log @ j"
    by (metis append_take_drop_id)
  have new: "new = j @ S" using h j by simp
  have "last log \<in> set log" using ne by simp
  then have "\<And>m. m \<in> set S \<Longrightarrow> msg_id m \<noteq> msg_id (last log)"
    using d new by (force simp: image_iff)
  then have dz: "dropWhile (\<lambda>m. msg_id m \<noteq> msg_id (last log)) S = []"
    by simp
  show ?thesis unfolding dz using False by simp
qed

lemma last_dropWhile: "dropWhile P xs \<noteq> [] \<Longrightarrow> last (dropWhile P xs) = last xs"
  by (metis last_appendR takeWhile_dropWhile_id)

lemma from_cursor_found:
  assumes "c \<in> set (map msg_id log)"
  shows "\<exists>m \<in> set log. msg_id m = c \<and> from_cursor c log = m # strictly_after c log"
proof -
  have ne: "dropWhile (\<lambda>m. msg_id m \<noteq> c) log \<noteq> []"
    using assms by (auto simp: dropWhile_eq_Nil_conv)
  then obtain m rest where mr: "dropWhile (\<lambda>m. msg_id m \<noteq> c) log = m # rest"
    by (cases "dropWhile (\<lambda>m. msg_id m \<noteq> c) log") auto
  have "msg_id m = c"
    using mr hd_dropWhile [of "\<lambda>m. msg_id m \<noteq> c" log] by auto
  moreover have "m \<in> set log"
    using mr set_dropWhileD [of m "\<lambda>m. msg_id m \<noteq> c" log] by simp
  ultimately show ?thesis
    using mr by (auto simp: from_cursor_def strictly_after_def)
qed

lemma resume_subscribe_found:
  assumes "c \<in> set (map msg_id log)" and "c \<noteq> []"
  shows "resume_subscribe log (Some c) = Some (BackfillThenLive (from_cursor c log))"
proof -
  let ?P = "\<lambda>m. Some (msg_id m) = Some c"
  have ex: "\<exists>x \<in> set log. ?P x"
    using assms(1) by auto
  have "findIndex ?P log \<noteq> - 1"
    using ex by (simp add: findIndex_found)
  moreover have "slice log (findIndex ?P log) = from_cursor c log"
    using ex by (simp add: slice_findIndex from_cursor_def)
  ultimately show ?thesis
    using assms(2) by (simp add: resume_subscribe_def Let_def)
qed

text \<open>With a cursor that is truthy and not found, the resolver returns no stream at all.\<close>

lemma resume_subscribe_unknown:
  assumes "c \<notin> set (map msg_id log)" and "c \<noteq> []"
  shows "resume_subscribe log (Some c) = None"
proof -
  have "findIndex (\<lambda>m. Some (msg_id m) = Some c) log = - 1"
    using assms(1) by (intro findIndex_missing) auto
  then show ?thesis
    using assms(2) by (simp add: resume_subscribe_def Let_def)
qed

lemma after_stitch_on_history:
  assumes "distinct (map msg_id (log @ new))" and "log \<noteq> []"
      and "log @ new = pre @ map onMessage live"
  shows "map onMessage (after_stitch (msg_id (last log)) live)
           = (if length pre < length log then new else [])"
  using stitch_on_history [OF assms] by (simp add: onMessage_after_stitch)

lemma live_loop_shut:
  "ms \<noteq> [] \<Longrightarrow> msg_id (last ms) \<notin> set (map msg_id later) \<Longrightarrow>
     live_loop ms False (map (\<lambda>m. \<lparr>onMessage = m\<rparr>) later) = []"
  by (induction later) auto

text \<open>
  C1. Resume correctness: the specification says that subscribing with a cursor found in
  the log yields the messages strictly after the cursor and then the live messages, from
  the reappearance of the last backfilled id on. In the resumable server, for every log,
  every cursor \<open>c\<close> that is the id of a message in it, and every run of messages
  published after the backfill has been consumed, none of which repeats the id of the last
  logged message (ids are fresh draws of \<^verbatim>\<open>randomUUID()\<close>), the whole stream is the
  messages of the log from the one with id \<open>c\<close> on, that message included: the message the
  subscriber already has is sent again, and no message published afterwards is ever
  yielded, because the id awaited by the second loop was published before the generator
  subscribed to the topic.
\<close>

theorem resumed_subscriber_starves:
  assumes "c \<in> set (map msg_id log)" and "c \<noteq> []"
      and "msg_id (last log) \<notin> set (map msg_id later)"
  shows "resumed_stream log (Some c) later
           = Some (map (\<lambda>m. \<lparr>onMessage = m\<rparr>) (from_cursor c log))"
proof -
  have ne: "from_cursor c log \<noteq> []"
    using from_cursor_found [OF assms(1)] by auto
  have "last (from_cursor c log) = last log"
    using ne by (simp add: from_cursor_def last_dropWhile)
  then have "live_loop (from_cursor c log) False (map (\<lambda>m. \<lparr>onMessage = m\<rparr>) later) = []"
    using ne assms(3) by (simp add: live_loop_shut)
  then show ?thesis
    by (simp add: resumed_stream_def resume_subscribe_found [OF assms(1,2)])
qed

text \<open>
  Scenario A of the specification: the log holds one message, the cursor is its id, and
  two messages are published afterwards. The resumable server yields the logged message
  and nothing else; the specification asks for the two later messages; the unstable
  server, subscribed with the same cursor on the same log, queues exactly those two.
\<close>

theorem resumed_subscriber_starves_witness:
  "uuid_1 \<in> set (map msg_id [hello_1]) \<and> uuid_1 \<noteq> []
   \<and> msg_id (last [hello_1]) \<notin> set (map msg_id [hello_2, hello_3])
   \<and> resumed_stream [hello_1] (Some uuid_1) [hello_2, hello_3] = Some [\<lparr>onMessage = hello_1\<rparr>]
   \<and> map (\<lambda>m. \<lparr>onMessage = m\<rparr>) (strictly_after uuid_1 [hello_1] @ [hello_2, hello_3])
        = [\<lparr>onMessage = hello_2\<rparr>, \<lparr>onMessage = hello_3\<rparr>]
   \<and> sub_queue (last (emitter (server_run
          [Publish uuid_2 ''2025-01-01T00:00:01.000Z'' ''again'' ''bob'',
           Publish uuid_3 ''2025-01-01T00:00:02.000Z'' ''bye'' ''ann'']
          (Pubsub_subscribe ''MESSAGE_SENT'' ''subscription:client-1'' None (Some uuid_1)
             \<lparr>storage_messages = [hello_1], emitter = []\<rparr>))))
        = [\<lparr>onMessage = hello_2\<rparr>, \<lparr>onMessage = hello_3\<rparr>]"
  using resumed_subscriber_starves [of uuid_1 "[hello_1]" "[hello_2, hello_3]"]
  by (simp add: from_cursor_def strictly_after_def
      Pubsub_subscribe_def findIndex_def slice_def push_last_def sendMessage_def Pubsub_send_def
      listener_def became_unresponsive_def Let_def fixture_defs)

text \<open>
  C3. Cursor-not-found fallback: the specification says that a subscription whose cursor is
  not the id of any logged message falls back to the live stream, as if no cursor had been
  given. In the resumable server, for every log and every non-empty cursor that is not the
  id of a message in it, the resolver reaches its end and returns no stream at all:
  neither a backfill nor any message published afterwards is delivered.
\<close>

theorem unknown_cursor_returns_no_stream:
  assumes "c \<notin> set (map msg_id log)" and "c \<noteq> []"
  shows "resume_subscribe log (Some c) = None \<and> resumed_stream log (Some c) later = None"
  using resume_subscribe_unknown [OF assms] by (simp add: resumed_stream_def)

text \<open>
  The log holds one message and the cursor is an id that is not in it. The resumable
  server returns no stream, where without a cursor it delivers the message published
  next; the unstable server, subscribed with the same cursor on the same log, queues that
  message.
\<close>

theorem unknown_cursor_returns_no_stream_witness:
  "uuid_3 \<notin> set (map msg_id [hello_1]) \<and> uuid_3 \<noteq> []
   \<and> resume_subscribe [hello_1] (Some uuid_3) = None
   \<and> resumed_stream [hello_1] (Some uuid_3) [hello_2] = None
   \<and> resumed_stream [hello_1] None [hello_2] = Some [\<lparr>onMessage = hello_2\<rparr>]
   \<and> sub_queue (last (emitter (server_run
          [Publish uuid_2 ''2025-01-01T00:00:01.000Z'' ''again'' ''bob'']
          (Pubsub_subscribe ''MESSAGE_SENT'' ''subscription:client-1'' None (Some uuid_3)
             \<lparr>storage_messages = [hello_1], emitter = []\<rparr>))))
        = [\<lparr>onMessage = hello_2\<rparr>]"
  using unknown_cursor_returns_no_stream [of uuid_3 "[hello_1]" "[hello_2]"]
  by (simp add: resumed_stream_def resume_subscribe_def
      Pubsub_subscribe_def findIndex_def slice_def push_last_def sendMessage_def Pubsub_send_def
      listener_def became_unresponsive_def Let_def fixture_defs)

text \<open>
  What the second loop would do with the two kinds of live feed: a feed that still carries
  the last logged message passes exactly the later messages; a feed that starts after it
  (the subscription to the topic is made once the backfill has been consumed) never
  carries that id again, and nothing of it is yielded.
\<close>

lemma live_part_of_history:
  assumes "c \<in> set (map msg_id log)"
      and "distinct (map msg_id (log @ new))"
      and "log @ new = pre @ map onMessage live"
  shows "map onMessage (live_loop (from_cursor c log) False live)
           = (if length pre < length log then new else [])"
proof -
  have ne: "from_cursor c log \<noteq> []"
    using from_cursor_found [OF assms(1)] by auto
  have lognz: "log \<noteq> []"
    using assms(1) by auto
  have "last (from_cursor c log) = last log"
    using ne by (simp add: from_cursor_def last_dropWhile)
  then show ?thesis
    using after_stitch_on_history [OF assms(2) lognz assms(3)] ne by (simp add: live_loop_gate)
qed


section \<open>Subscribing with a cursor: the unstable server\<close>

lemma push_last_snoc:
  "push_last ms (xs @ [sub]) = xs @ [sub\<lparr>sub_queue := sub_queue sub @ ms\<rparr>]"
  by (simp add: push_last_def)

lemma strip_listener: "strip_args (listener m sub) = listener m (strip_args sub)"
  by (simp add: strip_args_def listener_def)

lemma strip_fire: "strip_args (fire_problem sub) = fire_problem (strip_args sub)"
  by (simp add: strip_args_def fire_problem_def split: option.splits)

lemma strip_close: "strip_args (close_queue sub) = close_queue (strip_args sub)"
  by (simp add: strip_args_def close_queue_def)

lemma strip_idem: "strip_args (strip_args sub) = strip_args sub"
  by (simp add: strip_args_def)

lemma map_at_index:
  "(\<And>x. h (f x) = f (h x)) \<Longrightarrow> map h (at_index i f xs) = at_index i f (map h xs)"
  by (simp add: at_index_def map_update)

lemma forget_step: "forget_args (server_step e (forget_args s)) = forget_args (server_step e s)"
proof (cases e)
  case (Publish uuid now tx usr)
  then show ?thesis
    by (simp add: forget_args_def sendMessage_def Pubsub_send_def Let_def strip_listener
        strip_args_def listener_def)
next
  case (Subscribe topic sid pr c)
  then show ?thesis
    by (simp add: forget_args_def Pubsub_subscribe_def Let_def push_last_snoc strip_args_def)
next
  case (ProblemTimer i)
  then show ?thesis
    by (simp add: forget_args_def map_at_index strip_fire strip_idem comp_def)
next
  case (QueueClosed i)
  then show ?thesis
    by (simp add: forget_args_def map_at_index strip_close strip_idem comp_def)
qed

lemma forget_run:
  "forget_args s = forget_args t \<Longrightarrow> forget_args (server_run es s) = forget_args (server_run es t)"
proof (induction es arbitrary: s t)
  case Nil
  then show ?case by simp
next
  case (Cons e es)
  have "forget_args (server_step e s) = forget_args (server_step e (forget_args s))"
    by (rule forget_step [symmetric])
  also have "\<dots> = forget_args (server_step e (forget_args t))"
    by (simp only: Cons.prems)
  also have "\<dots> = forget_args (server_step e t)"
    by (rule forget_step)
  finally have "forget_args (server_run es (server_step e s))
                 = forget_args (server_run es (server_step e t))"
    by (rule Cons.IH)
  then show ?case by simp
qed

lemma queues_forget: "map sub_queue (emitter (forget_args s)) = map sub_queue (emitter s)"
  by (simp add: forget_args_def strip_args_def comp_def)

lemma storage_forget: "storage_messages (forget_args s) = storage_messages s"
  by (simp add: forget_args_def)

lemma publish_delivers:
  assumes "n < length (emitter t)"
      and "sub_listening (emitter t ! n)"
      and "sub_topic (emitter t ! n) = ''MESSAGE_SENT''"
      and "\<not> became_unresponsive (sub_problem (emitter t ! n))"
      and "only_publishes es"
  shows "sub_queue (emitter (server_run es t) ! n)
           = sub_queue (emitter t ! n) @ map (\<lambda>m. \<lparr>onMessage = m\<rparr>) (published es)"
  using assms
proof (induction es arbitrary: t)
  case Nil
  then show ?case by simp
next
  case (Cons e es)
  show ?case
  proof (cases e)
    case (Publish uuid now tx usr)
    let ?t = "server_step e t"
    have len: "n < length (emitter ?t)"
      using Cons.prems(1) Publish by (simp add: sendMessage_def Pubsub_send_def Let_def)
    have nth: "emitter ?t ! n = listener \<lparr>onMessage = new_message uuid now tx usr\<rparr> (emitter t ! n)"
      using Cons.prems(1,2,3) Publish by (simp add: sendMessage_def Pubsub_send_def Let_def)
    have q: "sub_queue (emitter ?t ! n)
               = sub_queue (emitter t ! n) @ [\<lparr>onMessage = new_message uuid now tx usr\<rparr>]"
      using Cons.prems(4) by (simp add: nth listener_def)
    have keep: "sub_listening (emitter ?t ! n)" "sub_topic (emitter ?t ! n) = ''MESSAGE_SENT''"
               "\<not> became_unresponsive (sub_problem (emitter ?t ! n))"
      using Cons.prems(2,3,4) by (simp_all add: nth listener_def)
    have rest: "only_publishes es"
      using Cons.prems(5) Publish by simp
    have "sub_queue (emitter (server_run es ?t) ! n)
            = sub_queue (emitter ?t ! n) @ map (\<lambda>m. \<lparr>onMessage = m\<rparr>) (published es)"
      using len keep rest by (rule Cons.IH)
    then show ?thesis
      using q Publish by simp
  next
    case (Subscribe topic sid pr c)
    then show ?thesis using Cons.prems(5) by simp
  next
    case (ProblemTimer i)
    then show ?thesis using Cons.prems(5) by simp
  next
    case (QueueClosed i)
    then show ?thesis using Cons.prems(5) by simp
  qed
qed

lemma subscribe_no_cursor:
  "Pubsub_subscribe topic sid pr None s
     = s\<lparr>emitter := emitter s @ [\<lparr>sub_id = sid, sub_topic = topic, sub_args_id = None,
                                     sub_queue = [], sub_problem = pr, sub_listening = True\<rparr>]\<rparr>"
  by (simp add: Pubsub_subscribe_def)

lemma subscribe_unknown_cursor:
  assumes "c \<notin> set (map msg_id (storage_messages s))"
  shows "Pubsub_subscribe topic sid pr (Some c) s
     = s\<lparr>emitter := emitter s @ [\<lparr>sub_id = sid, sub_topic = topic, sub_args_id = Some c,
                                     sub_queue = [], sub_problem = pr, sub_listening = True\<rparr>]\<rparr>"
proof -
  have "findIndex (\<lambda>m. Some (msg_id m) = Some c) (storage_messages s) = - 1"
    using assms by (intro findIndex_missing) auto
  then show ?thesis
    by (simp add: Pubsub_subscribe_def Let_def)
qed

lemma subscribe_known_cursor:
  assumes "c \<in> set (map msg_id (storage_messages s))" and "c \<noteq> []"
  shows "Pubsub_subscribe topic sid pr (Some c) s
     = s\<lparr>emitter := emitter s @ [\<lparr>sub_id = sid, sub_topic = topic, sub_args_id = Some c,
            sub_queue = map (\<lambda>m. \<lparr>onMessage = m\<rparr>) (strictly_after c (storage_messages s)),
            sub_problem = pr, sub_listening = True\<rparr>]\<rparr>"
proof -
  let ?P = "\<lambda>m. Some (msg_id m) = Some c"
  have ex: "\<exists>x \<in> set (storage_messages s). ?P x"
    using assms(1) by auto
  have "findIndex ?P (storage_messages s) \<noteq> - 1"
    using ex by (simp add: findIndex_found)
  moreover have "slice (storage_messages s) (findIndex ?P (storage_messages s) + 1)
                   = strictly_after c (storage_messages s)"
    using ex by (simp add: slice_findIndex_Suc strictly_after_def)
  ultimately show ?thesis
    using assms(2) by (simp add: Pubsub_subscribe_def Let_def push_last_snoc)
qed

text \<open>
  The unstable server does fall back: when the cursor is not the id of any message in the
  log, \<^verbatim>\<open>Pubsub.subscribe\<close> pushes no backfill to the queue of the new subscription;
  after any run of events the queues of all subscriptions and the log are what they would
  be had no cursor been given; and, as long as the fault injector has not made the
  subscription unresponsive, every message published afterwards is pushed to its queue, in
  publish order.
\<close>

lemma unknown_cursor_live_only:
  assumes "c \<notin> set (map msg_id (storage_messages s))"
  shows "sub_queue (last (emitter (Pubsub_subscribe topic sid pr (Some c) s))) = []
       \<and> map sub_queue (emitter (server_run es (Pubsub_subscribe topic sid pr (Some c) s)))
           = map sub_queue (emitter (server_run es (Pubsub_subscribe topic sid pr None s)))
       \<and> storage_messages (server_run es (Pubsub_subscribe topic sid pr (Some c) s))
           = storage_messages (server_run es (Pubsub_subscribe topic sid pr None s))
       \<and> (topic = ''MESSAGE_SENT'' \<and> \<not> became_unresponsive pr \<and> only_publishes es \<longrightarrow>
            sub_queue (emitter (server_run es (Pubsub_subscribe topic sid pr (Some c) s))
                        ! length (emitter s))
              = map (\<lambda>m. \<lparr>onMessage = m\<rparr>) (published es))"
proof -
  let ?with = "Pubsub_subscribe topic sid pr (Some c) s"
  let ?without = "Pubsub_subscribe topic sid pr None s"
  have w: "?with = s\<lparr>emitter := emitter s @ [\<lparr>sub_id = sid, sub_topic = topic,
             sub_args_id = Some c, sub_queue = [], sub_problem = pr, sub_listening = True\<rparr>]\<rparr>"
    using assms by (rule subscribe_unknown_cursor)
  have no_backfill: "sub_queue (last (emitter ?with)) = []"
    by (simp add: w)
  have "forget_args ?with = forget_args ?without"
    by (simp add: w subscribe_no_cursor forget_args_def strip_args_def)
  then have same: "forget_args (server_run es ?with) = forget_args (server_run es ?without)"
    by (rule forget_run)
  have queues: "map sub_queue (emitter (server_run es ?with))
                  = map sub_queue (emitter (server_run es ?without))"
    using same queues_forget by metis
  have log: "storage_messages (server_run es ?with) = storage_messages (server_run es ?without)"
    using same storage_forget by metis
  have live: "sub_queue (emitter (server_run es ?with) ! length (emitter s))
                = map (\<lambda>m. \<lparr>onMessage = m\<rparr>) (published es)"
    if "topic = ''MESSAGE_SENT''" "\<not> became_unresponsive pr" "only_publishes es"
  proof -
    let ?n = "length (emitter s)"
    have len: "?n < length (emitter ?with)"
      by (simp add: w)
    have nth: "emitter ?with ! ?n = \<lparr>sub_id = sid, sub_topic = topic, sub_args_id = Some c,
                 sub_queue = [], sub_problem = pr, sub_listening = True\<rparr>"
      by (simp add: w)
    have a: "sub_listening (emitter ?with ! ?n)"
      by (simp add: nth)
    have b: "sub_topic (emitter ?with ! ?n) = ''MESSAGE_SENT''"
      unfolding nth using that(1) by simp
    have c: "\<not> became_unresponsive (sub_problem (emitter ?with ! ?n))"
      unfolding nth using that(2) by simp
    have "sub_queue (emitter (server_run es ?with) ! ?n)
            = sub_queue (emitter ?with ! ?n) @ map (\<lambda>m. \<lparr>onMessage = m\<rparr>) (published es)"
      using len a b c that(3) by (rule publish_delivers)
    then show ?thesis by (simp add: nth)
  qed
  show ?thesis
    using no_backfill queues log live by blast
qed


section \<open>The subscriber: what each step keeps\<close>

lemma stopHeartbeat_fields [simp]:
  "reconnectAttempts (stopHeartbeat c) = reconnectAttempts c"
  "reconnectDelay (stopHeartbeat c) = reconnectDelay c"
  "maxReconnectAttempts (stopHeartbeat c) = maxReconnectAttempts c"
  "messageHandler (stopHeartbeat c) = messageHandler c"
  "subscriptionId (stopHeartbeat c) = subscriptionId c"
  "handler_calls (stopHeartbeat c) = handler_calls c"
  "subscriptions (stopHeartbeat c) = subscriptions c"
  "shouldReconnect (stopHeartbeat c) = shouldReconnect c"
  "ws (stopHeartbeat c) = ws c"
  "connected (stopHeartbeat c) = connected c"
  by (simp_all add: stopHeartbeat_def)

lemma attemptReconnect_fields [simp]:
  "reconnectAttempts (snd (attemptReconnect c)) = reconnectAttempts c + 1"
  "reconnectDelay (snd (attemptReconnect c)) = reconnectDelay c"
  "maxReconnectAttempts (snd (attemptReconnect c)) = maxReconnectAttempts c"
  "messageHandler (snd (attemptReconnect c)) = messageHandler c"
  "handler_calls (snd (attemptReconnect c)) = handler_calls c"
  "subscriptions (snd (attemptReconnect c)) = subscriptions c"
  by (simp_all add: attemptReconnect_def clearSubscription_def Let_def)

lemma subscribe_fields [simp]:
  "reconnectAttempts (snd (subscribe h i c)) = reconnectAttempts c"
  "reconnectDelay (snd (subscribe h i c)) = reconnectDelay c"
  "maxReconnectAttempts (snd (subscribe h i c)) = maxReconnectAttempts c"
  "handler_calls (snd (subscribe h i c)) = handler_calls c"
  "subscriptions (snd (subscribe h i c)) = subscriptions c"
  by (simp_all add: subscribe_def Let_def split: option.splits)

lemma disconnect_fields [simp]:
  "reconnectAttempts (snd (disconnect c)) = reconnectAttempts c"
  "reconnectDelay (snd (disconnect c)) = reconnectDelay c"
  "maxReconnectAttempts (snd (disconnect c)) = maxReconnectAttempts c"
  "handler_calls (snd (disconnect c)) = handler_calls c"
  by (simp_all add: disconnect_def Let_def split: option.splits)

lemma on_message_fields [simp]:
  "reconnectAttempts (on_message f c) = reconnectAttempts c"
  "reconnectDelay (on_message f c) = reconnectDelay c"
  "maxReconnectAttempts (on_message f c) = maxReconnectAttempts c"
  "messageHandler (on_message f c) = messageHandler c"
  "subscriptions (on_message f c) = subscriptions c"
  by (cases "(f, c)" rule: on_message.cases; simp add: Let_def split: option.splits)+

lemma attemptReconnect_connected_alt:
  "attemptReconnect_connected c =
     (if isl (fst (subscribe (messageHandler c) (lastMessageId c) c))
      then attemptReconnect_catch (snd (subscribe (messageHandler c) (lastMessageId c) c))
      else snd (subscribe (messageHandler c) (lastMessageId c) c))"
  by (simp add: attemptReconnect_connected_def split: prod.splits sum.splits)

lemmas step_defs = connect_def client_sendMessage_def unsubscribe_def on_open_def
  startHeartbeat_def on_error_def on_close_def heartbeat_tick_def
  attemptReconnect_after_sleep_def attemptReconnect_connected_alt attemptReconnect_catch_def

lemma step_reconnectDelay:
  "reconnectDelay c = INITIAL_RECONNECT_DELAY \<Longrightarrow>
     reconnectDelay (client_step e c) = INITIAL_RECONNECT_DELAY"
  by (cases e) (auto simp: step_defs Let_def
      split: option.splits fetch_outcome.splits list.splits)

lemma step_maxReconnectAttempts:
  "maxReconnectAttempts (client_step e c) = maxReconnectAttempts c"
  by (cases e) (auto simp: step_defs Let_def
      split: option.splits fetch_outcome.splits list.splits)

lemma step_subscriptions:
  "subscriptions c = None \<Longrightarrow> subscriptions (client_step e c) = None"
  by (cases e) (auto simp: step_defs disconnect_def Let_def
      split: option.splits fetch_outcome.splits list.splits)

lemma step_reset_only_on_open:
  "reconnectAttempts (client_step e c) = 0 \<Longrightarrow> reconnectAttempts c = 0 \<or> e = Ws_open"
  by (cases e) (auto simp: connect_def client_sendMessage_def unsubscribe_def
      on_error_def on_close_def heartbeat_tick_def attemptReconnect_after_sleep_def
      attemptReconnect_connected_alt attemptReconnect_catch_def Let_def
      split: option.splits fetch_outcome.splits list.splits if_splits)

lemma step_attempts_bounded:
  "reconnectAttempts c \<le> maxReconnectAttempts c \<Longrightarrow>
     reconnectAttempts (client_step e c) \<le> maxReconnectAttempts (client_step e c)"
  by (cases e) (auto simp: step_defs Let_def
      split: option.splits fetch_outcome.splits list.splits if_splits)

lemma run_reconnectDelay:
  "reconnectDelay c = INITIAL_RECONNECT_DELAY \<Longrightarrow>
     reconnectDelay (client_run es c) = INITIAL_RECONNECT_DELAY"
  by (induction es arbitrary: c) (simp_all add: step_reconnectDelay)

lemma run_attempts_bounded:
  "reconnectAttempts c \<le> maxReconnectAttempts c \<Longrightarrow>
     reconnectAttempts (client_run es c) \<le> maxReconnectAttempts (client_run es c)"
  by (induction es arbitrary: c) (simp_all add: step_attempts_bounded)

lemma run_maxReconnectAttempts:
  "maxReconnectAttempts (client_run es c) = maxReconnectAttempts c"
  by (induction es arbitrary: c) (simp_all add: step_maxReconnectAttempts)

lemma run_subscriptions:
  "subscriptions c = None \<Longrightarrow> subscriptions (client_run es c) = None"
  by (induction es arbitrary: c) (simp_all add: step_subscriptions)

lemma backoff_mono: "j \<le> k \<Longrightarrow> backoff j \<le> backoff k"
proof -
  assume "j \<le> k"
  then have "(2::nat) ^ (j - 1) \<le> 2 ^ (k - 1)"
    by (intro power_increasing) auto
  then have "INITIAL_RECONNECT_DELAY * 2 ^ (j - 1) \<le> INITIAL_RECONNECT_DELAY * 2 ^ (k - 1)"
    by (rule mult_le_mono2)
  then show ?thesis
    unfolding backoff_def by (rule min.mono) simp
qed

lemma backoff_values: "map backoff [1, 2, 3, 4, 5] = [2000, 4000, 8000, 16000, 30000]"
  by (simp add: backoff_def INITIAL_RECONNECT_DELAY_def MAX_RECONNECT_DELAY_def)

lemmas client_defs = client_0_def subscribed_client_def retrying_client_def GraphQLClient_def
  connect_def on_open_def on_close_def startHeartbeat_def stopHeartbeat_def
  attemptReconnect_def clearSubscription_def attemptReconnect_after_sleep_def
  attemptReconnect_catch_def attemptReconnect_connected_def subscribe_def unsubscribe_def
  disconnect_def new_WebSocket_def template_clientId_def
  MAX_RECONNECT_ATTEMPTS_def INITIAL_RECONNECT_DELAY_def MAX_RECONNECT_DELAY_def Let_def


section \<open>The subscriber: reconnection backoff\<close>

text \<open>
  The backoff formula: for every client reached from the constructor by any run of events
  and every \<open>k \<ge> 1\<close>, when the attempt counter stands at \<open>k - 1\<close> the next
  \<^verbatim>\<open>attemptReconnect\<close> counts attempt \<open>k\<close> and sleeps
  \<open>min (INITIAL_RECONNECT_DELAY * 2 ^ (k - 1)) MAX_RECONNECT_DELAY\<close> milliseconds, with
  the cap at 30000; the counter of such a client never exceeds the maximum of 5 attempts;
  the delays are non-decreasing in \<open>k\<close>; and the only event that brings the counter back
  to 0 is the \<^verbatim>\<open>open\<close> event of the socket, the handler the source marks
  \<^verbatim>\<open>Reset reconnect attempts on successful connection\<close>.
\<close>

lemma reconnect_backoff:
  assumes reach: "c = client_run es (GraphQLClient u i)"
      and k: "1 \<le> k" "reconnectAttempts c = k - 1"
  shows "fst (attemptReconnect c) = min (INITIAL_RECONNECT_DELAY * 2 ^ (k - 1)) MAX_RECONNECT_DELAY
       \<and> reconnectAttempts (snd (attemptReconnect c)) = k
       \<and> sleeps (snd (attemptReconnect c)) = sleeps c @ [backoff k]
       \<and> reconnectAttempts c \<le> MAX_RECONNECT_ATTEMPTS
       \<and> (\<forall>j. j \<le> k \<longrightarrow> backoff j \<le> backoff k)
       \<and> (\<forall>e. reconnectAttempts (client_step e c) = 0 \<longrightarrow> reconnectAttempts c = 0 \<or> e = Ws_open)"
proof -
  have d: "reconnectDelay c = INITIAL_RECONNECT_DELAY"
    unfolding reach by (rule run_reconnectDelay) (simp add: GraphQLClient_def)
  have "reconnectAttempts c \<le> maxReconnectAttempts c"
    unfolding reach by (rule run_attempts_bounded) (simp add: GraphQLClient_def)
  then have b: "reconnectAttempts c \<le> MAX_RECONNECT_ATTEMPTS"
    unfolding reach by (simp add: run_maxReconnectAttempts GraphQLClient_def)
  have n: "k = Suc (reconnectAttempts c)"
    using k by simp
  have delay: "fst (attemptReconnect c)
                 = min (INITIAL_RECONNECT_DELAY * 2 ^ (k - 1)) MAX_RECONNECT_DELAY"
    using d by (simp add: n attemptReconnect_def clearSubscription_def Let_def)
  have slept: "sleeps (snd (attemptReconnect c)) = sleeps c @ [backoff k]"
    using d by (simp add: n attemptReconnect_def clearSubscription_def Let_def backoff_def)
  have count: "reconnectAttempts (snd (attemptReconnect c)) = k"
    by (simp add: n)
  show ?thesis
    using delay count slept b backoff_mono step_reset_only_on_open by blast
qed

lemma reconnect_backoff_at_retrying_client:
  "retrying_client = client_run [Call_connect, Ws_open, Ws_message connection_ack, Ws_close,
                 Sleep_over, Reconnect_rejected] (GraphQLClient ''ws://localhost:4000/graphql'' (Some ''1''))
   \<and> (1::nat) \<le> 3 \<and> reconnectAttempts retrying_client = 3 - 1
   \<and> sleeps retrying_client = [2000, 4000]
   \<and> fst (attemptReconnect retrying_client) = 8000
   \<and> reconnectAttempts (snd (attemptReconnect retrying_client)) = 3"
  using reconnect_backoff [of retrying_client "[Call_connect, Ws_open, Ws_message connection_ack,
          Ws_close, Sleep_over, Reconnect_rejected]" "''ws://localhost:4000/graphql''" "Some ''1''" 3]
  by (simp add: client_defs)

lemmas client_r_defs = subscribed_client_r_def unsubscribed_client_r_def reconnected_client_r_def
  unacknowledged_client_r_def
  GraphQLClient_r_def connect_r_def on_open_r_def startHeartbeat_r_def stopHeartbeat_r_def
  subscribe_r_def unsubscribe_r_def subscribeWithResume_def attemptReconnect_r_def on_close_r_def
  attemptReconnect_after_sleep_r_def attemptReconnect_connected_r_def attemptReconnect_catch_r_def
  Map_set_def Map_has_def Map_delete_def template_clientId_def new_WebSocket_def
  string_of_nat.simps MAX_RECONNECT_ATTEMPTS_def INITIAL_RECONNECT_DELAY_r_def
  MAX_RECONNECT_DELAY_def Let_def

text \<open>
  C4. Backoff and the reset of the attempt counter: the specification says that the counter
  goes back to 0 only after a successful reconnect, and the \<^verbatim>\<open>open\<close> handler carries the
  comment \<^verbatim>\<open>Reset reconnect attempts on successful connection\<close>; but that handler runs
  when the socket opens, before the server has acknowledged the connection. A client that
  was acknowledged once loses its socket: the counter goes to 1. The socket of the first
  reconnection opens: the counter is 0 again although the client is not connected. When
  each reconnection opens a socket and is then rejected, every attempt is counted as the
  first: the delays are 2000, 2000, 2000, 2000 where the formula gives 2000, 4000, 8000,
  16000, the counter stands at 1 and the maximum of 5 attempts is never reached. A
  reconnection that is acknowledged leaves the counter at 0 and the client connected. The
  earlier client does the same with its initial delay of 1000.
\<close>

theorem reset_before_acknowledgment:
  "reconnectAttempts (client_run [Call_connect, Ws_open, Ws_message connection_ack, Ws_close]
                        client_0) = 1
   \<and> reconnectAttempts (client_run [Call_connect, Ws_open, Ws_message connection_ack, Ws_close,
                                     Sleep_over, Ws_open] client_0) = 0
   \<and> \<not> connected (client_run [Call_connect, Ws_open, Ws_message connection_ack, Ws_close,
                                Sleep_over, Ws_open] client_0)
   \<and> \<not> connected unacknowledged_client
   \<and> sleeps unacknowledged_client = [2000, 2000, 2000, 2000]
   \<and> reconnectAttempts unacknowledged_client = 1
   \<and> map backoff [1, 2, 3, 4] = [2000, 4000, 8000, 16000]
   \<and> reconnectAttempts (client_run [Call_connect, Ws_open, Ws_message connection_ack, Ws_close,
                                     Sleep_over, Ws_open, Ws_message connection_ack,
                                     Reconnect_resolved] client_0) = 0
   \<and> connected (client_run [Call_connect, Ws_open, Ws_message connection_ack, Ws_close,
                              Sleep_over, Ws_open, Ws_message connection_ack,
                              Reconnect_resolved] client_0)
   \<and> \<not> connected_r unacknowledged_client_r
   \<and> sleeps_r unacknowledged_client_r = [1000, 1000, 1000, 1000]
   \<and> reconnectAttempts_r unacknowledged_client_r = 1"
  by (simp add: client_defs unacknowledged_client_def backoff_def client_r_defs)


section \<open>The subscriber: one subscription at a time\<close>

text \<open>
  C5, as the specification states it: a second \<^verbatim>\<open>subscribe()\<close> on a client with an
  active subscription sends no start frame and replaces nothing. The earlier client,
  connected and subscribed with one handler, has no such guard: a second call returns a
  new subscription id, writes a second start frame to the socket, and adds the handler
  and the subscription to those it keeps.
\<close>

theorem second_subscribe_r_counterexample:
  "connected_r subscribed_client_r
   \<and> subscriptions_r subscribed_client_r = [(''subscription:1-1'', Handler 1)]
   \<and> messageHandlers_r subscribed_client_r = [Handler 1]
   \<and> fst (subscribe_r (Handler 2) None subscribed_client_r) = Inr ''subscription:1-2''
   \<and> messageHandlers_r (snd (subscribe_r (Handler 2) None subscribed_client_r))
        = [Handler 1, Handler 2]
   \<and> subscriptions_r (snd (subscribe_r (Handler 2) None subscribed_client_r))
        = [(''subscription:1-1'', Handler 1), (''subscription:1-2'', Handler 2)]
   \<and> ws_r (snd (subscribe_r (Handler 2) None subscribed_client_r))
        = Some \<lparr>sock_sent = [connection_init, start ''subscription:1-1'' OnMessage None,
                              start ''subscription:1-2'' OnMessage None],
                sock_pings = 0, sock_closed = False\<rparr>"
  by (simp add: client_r_defs)

text \<open>
  C5, amended. Single-subscription invariant of the later client, which keeps one
  subscription id and one handler: when the client holds a subscription id, a further
  \<^verbatim>\<open>subscribe\<close> leaves the whole client as it is: nothing is written to the socket,
  the subscription id and the message handler stay. On a connected client the call returns
  \<^verbatim>\<open>undefined\<close>; on a client that is not connected it throws the not-connected
  error. The handler registered first goes on receiving: the next data frame is handed to
  it.
\<close>

theorem second_subscribe_is_noop:
  assumes active: "truthy (subscriptionId c)"
  shows "snd (subscribe h' i' c) = c
       \<and> (connected c \<longrightarrow> fst (subscribe h' i' c) = Inr None)
       \<and> (\<not> connected c \<longrightarrow> fst (subscribe h' i' c) = Inl (Error ''Not connected to server''))
       \<and> (\<forall>h m. messageHandler c = Some h \<longrightarrow>
             handler_calls (on_message (data (Some m)) (snd (subscribe h' i' c)))
               = handler_calls c @ [(h, m)])"
proof -
  have same: "snd (subscribe h' i' c) = c"
    using active by (simp add: subscribe_def)
  have ret: "connected c \<longrightarrow> fst (subscribe h' i' c) = Inr None"
    using active by (simp add: subscribe_def)
  have thr: "\<not> connected c \<longrightarrow> fst (subscribe h' i' c) = Inl (Error ''Not connected to server'')"
    by (simp add: subscribe_def)
  have deliver: "handler_calls (on_message (data (Some m)) (snd (subscribe h' i' c)))
               = handler_calls c @ [(h, m)]" if "messageHandler c = Some h" for h m
    unfolding same using that by (simp add: Let_def)
  show ?thesis
    using same ret thr deliver by blast
qed

theorem second_subscribe_is_noop_witness:
  "truthy (subscriptionId subscribed_client)
   \<and> connected subscribed_client
   \<and> messageHandler subscribed_client = Some (Handler 1)
   \<and> subscribe (Some (Handler 2)) (Some uuid_1) subscribed_client = (Inr None, subscribed_client)
   \<and> handler_calls (on_message (data (Some hello_1))
         (snd (subscribe (Some (Handler 2)) (Some uuid_1) subscribed_client)))
       = [(Handler 1, hello_1)]"
  using second_subscribe_is_noop [of subscribed_client "Some (Handler 2)" "Some uuid_1"]
  by (simp add: client_defs fixture_defs)


section \<open>The subscriber: unsubscribe\<close>

lemma step_keeps_unregistered:
  assumes "messageHandler c \<noteq> Some h" and "\<not> registers h e"
  shows "messageHandler (client_step e c) \<noteq> Some h
       \<and> calls_to h (client_step e c) = calls_to h c"
proof (cases e)
  case (Ws_message f)
  then show ?thesis
    using assms(1)
    by (cases "(f, c)" rule: on_message.cases) (auto simp: calls_to_def Let_def split: option.splits)
next
  case (Call_subscribe g i)
  then show ?thesis
    using assms by (auto simp: calls_to_def subscribe_def Let_def split: option.splits)
next
  case Reconnect_resolved
  then show ?thesis
    using assms(1)
    by (auto simp: calls_to_def attemptReconnect_connected_alt attemptReconnect_catch_def
        subscribe_def attemptReconnect_def clearSubscription_def Let_def split: option.splits)
qed (use assms(1) in \<open>auto simp: calls_to_def step_defs disconnect_def Let_def
      split: option.splits fetch_outcome.splits list.splits\<close>)

lemma run_keeps_unregistered:
  assumes "messageHandler c \<noteq> Some h" and "\<forall>e \<in> set es. \<not> registers h e"
  shows "calls_to h (client_run es c) = calls_to h c"
  using assms
proof (induction es arbitrary: c)
  case Nil
  show ?case by simp
next
  case (Cons e es)
  have "\<not> registers h e"
    using Cons.prems(2) by simp
  then have st: "messageHandler (client_step e c) \<noteq> Some h"
                "calls_to h (client_step e c) = calls_to h c"
    using step_keeps_unregistered [OF Cons.prems(1)] by blast+
  have "calls_to h (client_run es (client_step e c)) = calls_to h (client_step e c)"
    using Cons.prems(2) by (intro Cons.IH st(1)) simp
  then show ?case
    using st(2) by simp
qed

text \<open>
  The later client: after \<^verbatim>\<open>unsubscribe()\<close> on a client with a subscription id and a
  socket, the stop frame has been written, the subscription id and the message handler
  are cleared, and no later data frame is handed to any handler; more generally, over
  every later run of events in which the caller does not register the handler \<open>h\<close>
  again (socket events, reconnection and the resubscription it makes included), \<open>h\<close>
  is never called again.
\<close>

lemma unsubscribe_stops_delivery:
  assumes active: "truthy (subscriptionId c)" "ws c \<noteq> None"
      and later: "\<forall>e \<in> set es. \<not> registers h e"
  shows "messageHandler (unsubscribe c) = None
       \<and> subscriptionId (unsubscribe c) = None
       \<and> (\<exists>sock. ws c = Some sock \<and> ws (unsubscribe c)
             = Some (sock\<lparr>sock_sent := sock_sent sock @ [stop (the (subscriptionId c))]\<rparr>))
       \<and> calls_to h (client_run es (unsubscribe c)) = calls_to h c
       \<and> (\<forall>ms. handler_calls (client_run (map (\<lambda>m. Ws_message (data (Some m))) ms) (unsubscribe c))
               = handler_calls c)"
proof -
  obtain sock where sock: "ws c = Some sock"
    using active(2) by auto
  have u: "unsubscribe c = c\<lparr>ws := Some (sock\<lparr>sock_sent := sock_sent sock
                                @ [stop (the (subscriptionId c))]\<rparr>),
                              subscriptionId := None, messageHandler := None\<rparr>"
    using active(1) sock by (simp add: unsubscribe_def Let_def)
  have none: "messageHandler (unsubscribe c) = None" "subscriptionId (unsubscribe c) = None"
    by (simp_all add: u)
  have "calls_to h (client_run es (unsubscribe c)) = calls_to h (unsubscribe c)"
    using later by (intro run_keeps_unregistered) (simp_all add: none)
  then have quiet: "calls_to h (client_run es (unsubscribe c)) = calls_to h c"
    by (simp add: u calls_to_def)
  have frames: "handler_calls (client_run (map (\<lambda>m. Ws_message (data (Some m))) ms) d)
                  = handler_calls d" if "messageHandler d = None" for ms d
    using that by (induction ms arbitrary: d) (simp_all add: Let_def)
  have silent: "handler_calls (client_run (map (\<lambda>m. Ws_message (data (Some m))) ms) (unsubscribe c))
               = handler_calls c" for ms
    using frames [OF none(1)] by (simp add: u)
  show ?thesis
    using none sock u quiet silent by auto
qed

lemma unsubscribe_stops_delivery_at_subscribed_client:
  "truthy (subscriptionId subscribed_client) \<and> ws subscribed_client \<noteq> None
   \<and> messageHandler subscribed_client = Some (Handler 1)
   \<and> list_all (\<lambda>e. \<not> registers (Handler 1) e)
         [Ws_message (data (Some hello_1)), Ws_close, Sleep_over, Ws_open,
          Ws_message connection_ack, Reconnect_resolved, Ws_message (data (Some hello_2))]
   \<and> calls_to (Handler 1)
         (client_run [Ws_message (data (Some hello_1)), Ws_close, Sleep_over, Ws_open,
                      Ws_message connection_ack, Reconnect_resolved,
                      Ws_message (data (Some hello_2))] (unsubscribe subscribed_client)) = []
   \<and> calls_to (Handler 1)
         (client_run [Ws_message (data (Some hello_1))] subscribed_client) = [hello_1]"
  using unsubscribe_stops_delivery [of subscribed_client
          "[Ws_message (data (Some hello_1)), Ws_close, Sleep_over, Ws_open,
            Ws_message connection_ack, Reconnect_resolved, Ws_message (data (Some hello_2))]"
          "Handler 1"]
  by (simp add: client_defs fixture_defs calls_to_def)

text \<open>
  In the earlier client \<^verbatim>\<open>unsubscribe\<close> never touches the handlers, and its
  \<^verbatim>\<open>subscribe\<close> has the guard of the later one.
\<close>

lemma unsubscribe_r_messageHandlers:
  "messageHandlers_r (snd (unsubscribe_r sid c)) = messageHandlers_r c"
  by (simp add: unsubscribe_r_def Let_def split: option.splits)

lemma subscribe_r_not_connected:
  "\<not> connected_r c \<Longrightarrow> subscribe_r h i c = (Inl (Error ''Not connected to server''), c)"
  by (simp add: subscribe_r_def)

text \<open>
  C8. Unsubscribe stops delivery: the specification says that after \<^verbatim>\<open>unsubscribe()\<close>
  the handler registered by the earlier \<^verbatim>\<open>subscribe()\<close> is never invoked again. The
  earlier client, connected and subscribed with one handler, is unsubscribed with the id
  that \<^verbatim>\<open>subscribe\<close> returned: the stop frame is written and the subscription leaves
  the map, but the handler stays in \<^verbatim>\<open>messageHandlers\<close>. A data frame that arrives
  afterwards is handed to it. After a close and a reconnection that succeeds,
  \<^verbatim>\<open>subscribeWithResume\<close> subscribes the handler again, with the last message id as
  cursor, and a message published then is handed to it, once for each time it has been
  pushed. The later client clears its handler in \<^verbatim>\<open>unsubscribe\<close>.
\<close>

theorem unsubscribe_r_keeps_handler:
  "subscriptions_r subscribed_client_r = [(''subscription:1-1'', Handler 1)]
   \<and> subscriptions_r unsubscribed_client_r = []
   \<and> ws_r unsubscribed_client_r
        = Some \<lparr>sock_sent = [connection_init, start ''subscription:1-1'' OnMessage None,
                              stop ''subscription:1-1''],
                sock_pings = 0, sock_closed = False\<rparr>
   \<and> messageHandlers_r unsubscribed_client_r = [Handler 1]
   \<and> handler_calls_r (on_message_r (data (Some hello_1)) unsubscribed_client_r)
        = [(Handler 1, hello_1)]
   \<and> ws_r reconnected_client_r
        = Some \<lparr>sock_sent = [connection_init,
                              start ''subscription:1-2'' OnMessageWithId (Some uuid_1)],
                sock_pings = 0, sock_closed = False\<rparr>
   \<and> handler_calls_r (on_message_r (data (Some hello_2)) reconnected_client_r)
        = [(Handler 1, hello_1), (Handler 1, hello_2), (Handler 1, hello_2)]
   \<and> messageHandler (unsubscribe subscribed_client) = None"
  by (simp add: client_r_defs client_defs fixture_defs)


section \<open>The subscriber: disconnect\<close>

text \<open>
  No step of the client assigns \<^verbatim>\<open>this.subscriptions\<close>, so on every client reached
  from the constructor that has a socket, \<^verbatim>\<open>disconnect\<close> throws at
  \<^verbatim>\<open>this.subscriptions.clear()\<close>: auto-reconnection is disabled, the heartbeat is
  stopped, the socket is closed and \<open>connected\<close> is false, but the message handler, the
  subscription id and the socket stay in the client.
\<close>

lemma disconnect_throws:
  assumes "c = client_run es (GraphQLClient u i)" and "ws c \<noteq> None"
  shows "fst (disconnect c) = Inl TypeError
       \<and> messageHandler (snd (disconnect c)) = messageHandler c
       \<and> subscriptionId (snd (disconnect c)) = subscriptionId c
       \<and> ws (snd (disconnect c)) \<noteq> None
       \<and> \<not> shouldReconnect (snd (disconnect c))
       \<and> \<not> heartbeatInterval (snd (disconnect c))
       \<and> \<not> connected (snd (disconnect c))"
proof -
  have "subscriptions c = None"
    unfolding assms(1) by (rule run_subscriptions) (simp add: GraphQLClient_def)
  then show ?thesis
    using assms(2) by (auto simp: disconnect_def stopHeartbeat_def Let_def)
qed

text \<open>
  C9. \<^verbatim>\<open>disconnect()\<close> on a connected client with a subscription: the specification
  says the call clears the subscription id and the message handler and returns normally.
  The client built by \<^verbatim>\<open>new GraphQLClient('ws://localhost:4000/graphql', '1')\<close>,
  connected, acknowledged and subscribed with a handler, throws a \<^verbatim>\<open>TypeError\<close> from
  \<^verbatim>\<open>disconnect()\<close> and keeps both.
\<close>

theorem disconnect_throws_TypeError:
  "connected subscribed_client
   \<and> subscriptionId subscribed_client = Some ''subscription:client-1''
   \<and> messageHandler subscribed_client = Some (Handler 1)
   \<and> fst (disconnect subscribed_client) = Inl TypeError
   \<and> subscriptionId (snd (disconnect subscribed_client)) = Some ''subscription:client-1''
   \<and> messageHandler (snd (disconnect subscribed_client)) = Some (Handler 1)
   \<and> ws (snd (disconnect subscribed_client))
        = Some \<lparr>sock_sent = [connection_init, start ''subscription:client-1'' OnMessage None],
                sock_pings = 0, sock_closed = True\<rparr>"
  by (simp add: client_defs)


section \<open>The subscriber: calls on a client that is not connected\<close>

text \<open>
  C10. Not-connected guard: on a client whose \<open>connected\<close> flag is false,
  \<^verbatim>\<open>subscribe(handler, id)\<close> and \<^verbatim>\<open>sendMessage(user, text)\<close> throw
  \<^verbatim>\<open>Error('Not connected to server')\<close> and leave the client exactly as it was: no
  frame written, no request posted, no handler and no subscription id stored.
\<close>

theorem not_connected_guard:
  assumes "\<not> connected c"
  shows "subscribe h i c = (Inl (Error ''Not connected to server''), c)
       \<and> client_sendMessage user t outcome c = (Inl (Error ''Not connected to server''), c)"
  using assms by (simp add: subscribe_def client_sendMessage_def)

theorem not_connected_guard_witness:
  "\<not> connected client_0
   \<and> subscribe (Some (Handler 1)) None client_0 = (Inl (Error ''Not connected to server''), client_0)
   \<and> client_sendMessage ''ann'' ''hello'' (body_data hello_1) client_0
        = (Inl (Error ''Not connected to server''), client_0)
   \<and> ws (snd (subscribe (Some (Handler 1)) None client_0)) = None
   \<and> subscriptionId (snd (subscribe (Some (Handler 1)) None client_0)) = None
   \<and> messageHandler (snd (subscribe (Some (Handler 1)) None client_0)) = None
   \<and> posted (snd (client_sendMessage ''ann'' ''hello'' (body_data hello_1) client_0)) = []"
  using not_connected_guard [of client_0 "Some (Handler 1)" None "''ann''" "''hello''"
          "body_data hello_1"]
  by (simp add: client_defs)

end
